theory Spec2Isabelle
  imports Main
begin

section \<open>The socket gateway of the chat server (server/src/sockets/io.js)\<close>

text \<open>
  The gateway keeps two in-memory registries, \<^verbatim>\<open>onlineUsers\<close> (a JavaScript
  \<^verbatim>\<open>Map\<close> from user id to a \<^verbatim>\<open>Set\<close> of socket ids) and \<^verbatim>\<open>activeCalls\<close>
  (a \<^verbatim>\<open>Map\<close> from call id to a call object), reads and writes the Mongo collections
  of chats, users and messages, and emits events to sockets and to Socket.IO rooms.
  Every handler is modelled as a function from the state before to the state after
  and the list of events it emits, in emission order. The listeners for receipts
  and reactions load a message, change their copy and save it: they are split at
  the \<^verbatim>\<open>await\<close> of \<^verbatim>\<open>Message.findById\<close>, so that any other event can be
  handled between the load and the save. Every other listener is one step.
\<close>

subsection \<open>JavaScript Set and Map\<close>

text \<open>
  A \<^verbatim>\<open>Set\<close> is the list of its elements in insertion order, which is the
  order a \<^verbatim>\<open>for ... of\<close> loop visits them. A \<^verbatim>\<open>Map\<close> is the list of its
  entries in insertion order; \<^verbatim>\<open>set\<close> on a key that is present keeps the entry's
  position.
\<close>

definition set_has :: "'a \<Rightarrow> 'a list \<Rightarrow> bool" where
  "set_has x xs = (x \<in> set xs)"

definition set_add :: "'a \<Rightarrow> 'a list \<Rightarrow> 'a list" where
  "set_add x xs = (if x \<in> set xs then xs else xs @ [x])"

definition set_delete :: "'a \<Rightarrow> 'a list \<Rightarrow> 'a list" where
  "set_delete x xs = removeAll x xs"

fun set_add_all :: "'a list \<Rightarrow> 'a list \<Rightarrow> 'a list" where
  "set_add_all [] t = t"
| "set_add_all (x # xs) t = set_add_all xs (set_add x t)"

definition map_get :: "'k \<Rightarrow> ('k \<times> 'v) list \<Rightarrow> 'v option" where
  "map_get k m = map_of m k"

definition map_has :: "'k \<Rightarrow> ('k \<times> 'v) list \<Rightarrow> bool" where
  "map_has k m = (map_of m k \<noteq> None)"

fun map_set :: "'k \<Rightarrow> 'v \<Rightarrow> ('k \<times> 'v) list \<Rightarrow> ('k \<times> 'v) list" where
  "map_set k v [] = [(k, v)]"
| "map_set k v (e # m) = (if fst e = k then (k, v) # m else e # map_set k v m)"

definition map_delete :: "'k \<Rightarrow> ('k \<times> 'v) list \<Rightarrow> ('k \<times> 'v) list" where
  "map_delete k m = filter (\<lambda>e. fst e \<noteq> k) m"

subsection \<open>Identifiers and documents\<close>

type_synonym uid = string
type_synonym sid = string
type_synonym chatId = string
type_synonym callId = string
type_synonym msgId = string

text \<open>The fields of the User schema that the gateway reads or writes.\<close>

record user =
  u_name :: string
  u_blocked :: "uid list"
  u_lastSeen :: nat

text \<open>The fields of the Chat schema that the gateway reads or writes.\<close>

record chat =
  isGroup :: bool
  participants :: "uid list"
  admins :: "uid list"
  onlyAdminsCanMessage :: bool
  lastMessageAt :: "nat option"

text \<open>
  The Message schema: \<^verbatim>\<open>type\<close> and \<^verbatim>\<open>status\<close> are its two enumerations; a
  reaction's fields \<^verbatim>\<open>by\<close> and \<^verbatim>\<open>at\<close> are \<open>by_user\<close> and \<open>at_time\<close> here.
\<close>

datatype msg_type = TText | TImage | TVideo | TAudio | TFile

datatype status = Sent | Delivered | Read

record reaction =
  emoji :: string
  by_user :: uid
  at_time :: nat

record message =
  m_id :: msgId
  m_chat :: chatId
  sender :: uid
  mtype :: msg_type
  m_text :: "string option"
  mediaUrl :: "string option"
  mediaName :: "string option"
  mediaSize :: "nat option"
  mediaDuration :: "nat option"
  replyTo :: "msgId option"
  forwardOf :: "msgId option"
  reactions :: "reaction list"
  mstatus :: status
  deliveredTo :: "uid list"
  readBy :: "uid list"
  m_version :: nat

text \<open>
  \<open>m_version\<close> is the version key \<^verbatim>\<open>__v\<close> that Mongoose keeps on every
  document of a schema that does not switch it off.

  A listener that waits for \<^verbatim>\<open>Message.findById\<close>: who called it, with what, and
  the copy of the document that the query found.
\<close>

datatype pending =
    PendingDelivered uid sid msgId "message option"
  | PendingRead uid sid msgId "message option"
  | PendingReact uid sid msgId string "message option"

text \<open>An entry of \<^verbatim>\<open>activeCalls\<close>.\<close>

record call =
  c_id :: callId
  c_chatId :: chatId
  kind :: string
  host :: uid
  members :: "uid list"
  createdAt :: nat

text \<open>
  Socket.IO rooms: the gateway names them \<^verbatim>\<open>chat:<chatId>\<close> and
  \<^verbatim>\<open>call:<callId>\<close>. The room that holds a single socket under its own id is the
  target \<open>Socket sid\<close> below.
\<close>

datatype room = ChatRoom chatId | CallRoom callId

record state =
  onlineUsers :: "(uid \<times> sid list) list"
  activeCalls :: "(callId \<times> call) list"
  rooms :: "(room \<times> sid list) list"
  chats :: "(chatId \<times> chat) list"
  users :: "(uid \<times> user) list"
  messages :: "(msgId \<times> message) list"
  pending :: "pending list"

subsection \<open>Events sent to clients\<close>

text \<open>What \<^verbatim>\<open>hydrateMessageForClient\<close> adds to a message: the populated reply.\<close>

record reply_info =
  r_id :: msgId
  r_type :: msg_type
  r_text :: "string option"
  r_mediaName :: "string option"
  r_sender :: "(uid \<times> string) option"
  r_senderName :: "string option"

record hydrated =
  h_msg :: message
  h_replyTo :: "reply_info option"
  h_clientId :: "string option"

datatype event =
    PresenceUpdate uid bool
  | MessageNew hydrated
  | MessageUpdate hydrated
  | ErrorEv string string
  | CallError string
  | CallCreated callId chatId string uid "uid list"
  | CallRing callId chatId string uid bool
  | CallParticipants callId "uid list" uid string
  | CallJoined callId uid
  | CallRejected callId uid
  | CallLeft callId uid
  | CallEnded callId string
  | CallSignal callId uid string

text \<open>
  \<open>Socket sid\<close> is \<^verbatim>\<open>io.to(sid).emit\<close>, one socket; \<open>Everyone\<close> is
  \<^verbatim>\<open>io.emit\<close>, every connected socket.
\<close>

datatype target = Socket sid | Everyone

type_synonym emit = "target \<times> event"

text \<open>\<^verbatim>\<open>io.sockets.adapter.rooms.get(name)\<close>, with the empty set for a missing room.\<close>

definition room_sids :: "(room \<times> sid list) list \<Rightarrow> room \<Rightarrow> sid list" where
  "room_sids rs r = (case map_get r rs of None \<Rightarrow> [] | Some ss \<Rightarrow> ss)"

text \<open>\<^verbatim>\<open>socket.join(room)\<close> and \<^verbatim>\<open>socket.leave(room)\<close>; an emptied room is dropped.\<close>

definition socket_join :: "sid \<Rightarrow> room \<Rightarrow> (room \<times> sid list) list \<Rightarrow> (room \<times> sid list) list" where
  "socket_join sid r rs = map_set r (set_add sid (room_sids rs r)) rs"

definition socket_leave :: "sid \<Rightarrow> room \<Rightarrow> (room \<times> sid list) list \<Rightarrow> (room \<times> sid list) list" where
  "socket_leave sid r rs =
     (case map_get r rs of
        None \<Rightarrow> rs
      | Some ss \<Rightarrow>
          (if set_delete sid ss = [] then map_delete r rs
           else map_set r (set_delete sid ss) rs))"

text \<open>Socket.IO takes a closing socket out of every room before it fires \<^verbatim>\<open>disconnect\<close>.\<close>

definition socket_leave_all :: "sid \<Rightarrow> (room \<times> sid list) list \<Rightarrow> (room \<times> sid list) list" where
  "socket_leave_all sid rs =
     filter (\<lambda>e. snd e \<noteq> []) (map (\<lambda>e. (fst e, set_delete sid (snd e))) rs)"

text \<open>\<^verbatim>\<open>io.to(room).emit(ev)\<close> and \<^verbatim>\<open>socket.to(room).emit(ev)\<close> (all but the sender).\<close>

definition io_to_room :: "(room \<times> sid list) list \<Rightarrow> room \<Rightarrow> event \<Rightarrow> emit list" where
  "io_to_room rs r ev = map (\<lambda>x. (Socket x, ev)) (room_sids rs r)"

definition socket_to_room :: "sid \<Rightarrow> (room \<times> sid list) list \<Rightarrow> room \<Rightarrow> event \<Rightarrow> emit list" where
  "socket_to_room sid rs r ev = map (\<lambda>x. (Socket x, ev)) (filter (\<lambda>x. x \<noteq> sid) (room_sids rs r))"

text \<open>The events a socket receives out of a list of emissions.\<close>

definition received :: "sid \<Rightarrow> emit list \<Rightarrow> event list" where
  "received x es = map snd (filter (\<lambda>e. fst e = Socket x \<or> fst e = Everyone) es)"

subsection \<open>Presence\<close>

text \<open>\<^verbatim>\<open>onlineUsers.has(userId)\<close>, the value the gateway broadcasts as \<^verbatim>\<open>online\<close>.\<close>

definition isOnline :: "state \<Rightarrow> uid \<Rightarrow> bool" where
  "isOnline s u = map_has u (onlineUsers s)"

text \<open>\<^verbatim>\<open>onlineUsers.get(userId)\<close>, the registered sockets of a user (none when absent).\<close>

definition sessionsOf :: "state \<Rightarrow> uid \<Rightarrow> sid list" where
  "sessionsOf s u = (case map_get u (onlineUsers s) of None \<Rightarrow> [] | Some ss \<Rightarrow> ss)"

text \<open>\<^verbatim>\<open>emitToUser(io, userId, event, payload)\<close>.\<close>

definition emitToUser :: "state \<Rightarrow> uid \<Rightarrow> event \<Rightarrow> emit list" where
  "emitToUser s u ev =
     (case map_get u (onlineUsers s) of
        None \<Rightarrow> []
      | Some ss \<Rightarrow> map (\<lambda>x. (Socket x, ev)) ss)"

text \<open>\<^verbatim>\<open>User.findByIdAndUpdate(userId, { lastSeen: new Date() })\<close>; no such user, no change.\<close>

definition touch_lastSeen :: "uid \<Rightarrow> nat \<Rightarrow> (uid \<times> user) list \<Rightarrow> (uid \<times> user) list" where
  "touch_lastSeen u now us =
     (case map_get u us of
        None \<Rightarrow> us
      | Some d \<Rightarrow> map_set u (d\<lparr>u_lastSeen := now\<rparr>) us)"

text \<open>
  The body of \<^verbatim>\<open>io.on('connection', ...)\<close> up to the registration of the
  listeners: the socket is added to the user's set, created when missing.
\<close>

definition on_connection :: "uid \<Rightarrow> sid \<Rightarrow> nat \<Rightarrow> state \<Rightarrow> state \<times> emit list" where
  "on_connection userId sid now s =
     (let ou = (if \<not> map_has userId (onlineUsers s)
                then map_set userId [] (onlineUsers s) else onlineUsers s);
          ou' = (case map_get userId ou of
                   None \<Rightarrow> ou
                 | Some ss \<Rightarrow> map_set userId (set_add sid ss) ou)
      in (s\<lparr>onlineUsers := ou', users := touch_lastSeen userId now (users s)\<rparr>,
          [(Everyone, PresenceUpdate userId True)]))"

text \<open>
  The \<^verbatim>\<open>for\<close> loop of the \<^verbatim>\<open>disconnect\<close> listener over
  \<^verbatim>\<open>activeCalls.entries()\<close>: the user leaves every call that lists it, and a call
  whose host it was, or that is left without members, is ended and deleted.
\<close>

fun sweep_calls ::
  "uid \<Rightarrow> (room \<times> sid list) list \<Rightarrow> (callId \<times> call) list \<Rightarrow> (callId \<times> call) list \<times> emit list"
where
  "sweep_calls userId rs [] = ([], [])"
| "sweep_calls userId rs (e # rest) =
     (let cid = fst e; c = snd e; r = sweep_calls userId rs rest
      in if set_has userId (members c) then
           (let c' = c\<lparr>members := set_delete userId (members c)\<rparr>;
                left = io_to_room rs (CallRoom cid) (CallLeft cid userId)
            in if host c = userId \<or> members c' = []
               then (fst r, left @ io_to_room rs (CallRoom cid) (CallEnded cid ''host_left'') @ snd r)
               else ((cid, c') # fst r, left @ snd r))
         else ((cid, c) # fst r, snd r))"

text \<open>The \<^verbatim>\<open>disconnect\<close> listener.\<close>

definition on_disconnect :: "uid \<Rightarrow> sid \<Rightarrow> nat \<Rightarrow> state \<Rightarrow> state \<times> emit list" where
  "on_disconnect userId sid now s =
     (let ou = (case map_get userId (onlineUsers s) of
                  None \<Rightarrow> onlineUsers s
                | Some ss \<Rightarrow>
                    (let ss' = set_delete sid ss;
                         ou1 = map_set userId ss' (onlineUsers s)
                     in if ss' = [] then map_delete userId ou1 else ou1));
          r = sweep_calls userId (rooms s) (activeCalls s)
      in (s\<lparr>onlineUsers := ou, users := touch_lastSeen userId now (users s),
             activeCalls := fst r\<rparr>,
          (Everyone, PresenceUpdate userId (map_has userId ou)) # snd r))"

text \<open>A socket closes: Socket.IO empties its rooms, then the listener runs.\<close>

definition socket_disconnect :: "uid \<Rightarrow> sid \<Rightarrow> nat \<Rightarrow> state \<Rightarrow> state \<times> emit list" where
  "socket_disconnect userId sid now s =
     on_disconnect userId sid now (s\<lparr>rooms := socket_leave_all sid (rooms s)\<rparr>)"

subsection \<open>Hydration and fan-out\<close>

text \<open>
  \<^verbatim>\<open>hydrateMessageForClient\<close>: the reply is populated with the fields
  \<^verbatim>\<open>_id type text mediaName sender\<close>, its sender with id and name, and
  \<^verbatim>\<open>senderName\<close> is the name unless it is empty. A reference that finds no
  document populates to nothing.
\<close>

definition hydrateMessageForClient :: "state \<Rightarrow> message \<Rightarrow> hydrated" where
  "hydrateMessageForClient s m =
     \<lparr>h_msg = m,
      h_replyTo =
        (case replyTo m of
           None \<Rightarrow> None
         | Some rid \<Rightarrow>
             (case map_get rid (messages s) of
                None \<Rightarrow> None
              | Some r \<Rightarrow>
                  (let sd = (case map_get (sender r) (users s) of
                               None \<Rightarrow> None
                             | Some d \<Rightarrow> Some (sender r, u_name d))
                   in Some \<lparr>r_id = rid, r_type = mtype r, r_text = m_text r,
                            r_mediaName = mediaName r, r_sender = sd,
                            r_senderName =
                              (case sd of
                                 None \<Rightarrow> None
                               | Some x \<Rightarrow> if snd x = [] then None else Some (snd x))\<rparr>))),
      h_clientId = None\<rparr>"

text \<open>
  The target set that \<^verbatim>\<open>message:send\<close>, \<^verbatim>\<open>message:forward\<close> and
  \<^verbatim>\<open>emitMessageUpdate\<close> build: the sockets in the chat's room, then the sockets
  of every listed user.
\<close>

definition fanout_targets :: "state \<Rightarrow> chatId \<Rightarrow> uid list \<Rightarrow> sid list" where
  "fanout_targets s chatId us =
     set_add_all (concat (map (sessionsOf s) us))
       (set_add_all (room_sids (rooms s) (ChatRoom chatId)) [])"

text \<open>\<^verbatim>\<open>emitMessageUpdate(io, msgDoc)\<close>.\<close>

definition emitMessageUpdate :: "state \<Rightarrow> message \<Rightarrow> emit list" where
  "emitMessageUpdate s m =
     (let us = (case map_get (m_chat m) (chats s) of None \<Rightarrow> [] | Some ch \<Rightarrow> participants ch);
          tg = fanout_targets s (m_chat m) us
      in map (\<lambda>x. (Socket x, MessageUpdate (hydrateMessageForClient s m))) tg)"

subsection \<open>message:send\<close>

record send_payload =
  sp_chatId :: chatId
  sp_text :: "string option"
  sp_type :: "msg_type option"
  sp_mediaUrl :: "string option"
  sp_mediaName :: "string option"
  sp_mediaSize :: "nat option"
  sp_mediaDuration :: "nat option"
  sp_clientId :: "string option"
  sp_replyToId :: "msgId option"

text \<open>
  \<^verbatim>\<open>populate('participants', '_id blocked')\<close>: each participant id becomes the
  user's document with these two fields; an id without a document is dropped.
\<close>

record participant =
  p_id :: uid
  p_blocked :: "uid list"

definition populate_participants :: "(uid \<times> user) list \<Rightarrow> uid list \<Rightarrow> participant list" where
  "populate_participants us ps =
     concat (map (\<lambda>p. case map_get p us of
                        None \<Rightarrow> []
                      | Some d \<Rightarrow> [\<lparr>p_id = p, p_blocked = u_blocked d\<rparr>]) ps)"

text \<open>The block checks of a direct chat: the message of the error thrown, if any.\<close>

definition dm_block_error :: "uid \<Rightarrow> participant list \<Rightarrow> string option" where
  "dm_block_error userId ps =
     (let others = filter (\<lambda>u. p_id u \<noteq> userId) ps;
          meDoc = find (\<lambda>u. p_id u = userId) ps;
          myBlocks = (case meDoc of None \<Rightarrow> [] | Some d \<Rightarrow> p_blocked d)
      in if list_ex (\<lambda>p. set_has (p_id p) myBlocks) others
         then Some ''You blocked this contact''
         else if list_ex (\<lambda>p. set_has userId (p_blocked p)) others
         then Some ''Recipient blocked you''
         else None)"

text \<open>
  A string that JavaScript takes as true: \<^verbatim>\<open>replyToId || undefined\<close> and
  \<^verbatim>\<open>if (clientId)\<close> drop the missing and the empty string alike.
\<close>

definition truthy :: "string option \<Rightarrow> string option" where
  "truthy v = (case v of None \<Rightarrow> None | Some c \<Rightarrow> if c = [] then None else Some c)"

text \<open>
  The document that \<^verbatim>\<open>Message.create\<close> stores for a send; \<open>newId\<close> is the id
  the store gives it, the lists start empty and the type defaults to text.
\<close>

definition sent_message :: "uid \<Rightarrow> send_payload \<Rightarrow> msgId \<Rightarrow> message" where
  "sent_message userId p newId =
     \<lparr>m_id = newId, m_chat = sp_chatId p, sender = userId,
      mtype = (case sp_type p of None \<Rightarrow> TText | Some t \<Rightarrow> t),
      m_text = sp_text p, mediaUrl = sp_mediaUrl p,
      mediaName = sp_mediaName p, mediaSize = sp_mediaSize p,
      mediaDuration = sp_mediaDuration p,
      replyTo = truthy (sp_replyToId p),
      forwardOf = None, reactions = [], mstatus = Sent,
      deliveredTo = [], readBy = [], m_version = 0\<rparr>"

text \<open>
  The \<^verbatim>\<open>try\<close> block of the listener: \<open>Inl\<close> is the message of the error
  thrown. \<open>now\<close> is the clock.
\<close>

definition message_send_try ::
  "uid \<Rightarrow> sid \<Rightarrow> send_payload \<Rightarrow> msgId \<Rightarrow> nat \<Rightarrow> state \<Rightarrow> string + state \<times> emit list"
where
  "message_send_try userId sid p newId now s =
     (case map_get (sp_chatId p) (chats s) of
        None \<Rightarrow> Inl ''Chat not found''
      | Some ch \<Rightarrow>
          (let ps = populate_participants (users s) (participants ch) in
           if isGroup ch \<and> onlyAdminsCanMessage ch \<and> \<not> list_ex (\<lambda>a. a = userId) (admins ch)
           then Inl ''Only group admins can send messages''
           else
             (case (if \<not> isGroup ch then dm_block_error userId ps else None) of
                Some e \<Rightarrow> Inl e
              | None \<Rightarrow>
                  (let msg = sent_message userId p newId;
                       s1 = s\<lparr>messages := map_set newId msg (messages s),
                              chats := map_set (sp_chatId p) (ch\<lparr>lastMessageAt := Some now\<rparr>) (chats s)\<rparr>;
                       out = (hydrateMessageForClient s1 msg)\<lparr>h_clientId := truthy (sp_clientId p)\<rparr>;
                       tg = set_add sid (fanout_targets s (sp_chatId p) (map p_id ps))
                   in Inr (s1, map (\<lambda>x. (Socket x, MessageNew out)) tg)))))"

text \<open>The listener with its \<^verbatim>\<open>catch\<close>: the error goes to the sender's socket only.\<close>

definition message_send ::
  "uid \<Rightarrow> sid \<Rightarrow> send_payload \<Rightarrow> msgId \<Rightarrow> nat \<Rightarrow> state \<Rightarrow> state \<times> emit list"
where
  "message_send userId sid p newId now s =
     (case message_send_try userId sid p newId now s of
        Inl e \<Rightarrow> (s, [(Socket sid, ErrorEv ''message:send'' (if e = [] then ''Failed to send'' else e))])
      | Inr r \<Rightarrow> r)"

subsection \<open>Saving a loaded document\<close>

text \<open>
  \<^verbatim>\<open>Message.findById\<close> gives the listener its own copy of the document, and
  \<^verbatim>\<open>msg.save()\<close> sends to the store what the listener changed on that copy, not
  the copy: an element pushed onto an array is appended to the stored array
  (\<^verbatim>\<open>$push\<close>), a field that got another value and an array that was spliced are
  written over the stored ones (\<^verbatim>\<open>$set\<close>).
\<close>

datatype change =
    Push_deliveredTo uid
  | Push_readBy uid
  | Push_reactions reaction
  | Set_reactions "reaction list"
  | Set_status status

fun apply_change :: "change \<Rightarrow> message \<Rightarrow> message" where
  "apply_change (Push_deliveredTo u) d = d\<lparr>deliveredTo := deliveredTo d @ [u]\<rparr>"
| "apply_change (Push_readBy u) d = d\<lparr>readBy := readBy d @ [u]\<rparr>"
| "apply_change (Push_reactions r) d = d\<lparr>reactions := reactions d @ [r]\<rparr>"
| "apply_change (Set_reactions rs) d = d\<lparr>reactions := rs\<rparr>"
| "apply_change (Set_status st) d = d\<lparr>mstatus := st\<rparr>"

text \<open>
  A change of an array raises the version key of the document. A save that writes
  a whole array also demands that the stored version is still the one that was
  loaded, and fails with Mongoose's \<^verbatim>\<open>VersionError\<close> when it is not.
\<close>

fun changes_array :: "change \<Rightarrow> bool" where
  "changes_array (Set_status st) = False"
| "changes_array c = True"

fun writes_array :: "change \<Rightarrow> bool" where
  "writes_array (Set_reactions rs) = True"
| "writes_array c = False"

definition next_version :: "change list \<Rightarrow> nat \<Rightarrow> nat" where
  "next_version cs v = (if list_ex changes_array cs then Suc v else v)"

text \<open>
  \<^verbatim>\<open>msg.save()\<close> for the document \<open>k\<close> loaded at version \<open>v\<close>, with the
  changes \<open>cs\<close>: \<open>Inl\<close> is the message of the error it fails with (the head of
  Mongoose's text). Nothing is sent when nothing was changed. No listener removes
  a message, so the document is still in the store when a listener saves it.
\<close>

definition doc_save ::
  "msgId \<Rightarrow> nat \<Rightarrow> change list \<Rightarrow> (msgId \<times> message) list \<Rightarrow> string + (msgId \<times> message) list"
where
  "doc_save k v cs ms =
     (if cs = [] then Inr ms
      else
        (case map_get k ms of
           None \<Rightarrow> Inl ''No document found''
         | Some d \<Rightarrow>
             if list_ex writes_array cs \<and> m_version d \<noteq> v
             then Inl ''No matching document found''
             else Inr (map_set k ((fold apply_change cs d)
                                   \<lparr>m_version := next_version cs (m_version d)\<rparr>) ms)))"

subsection \<open>Receipts, reactions and forwarding\<close>

text \<open>
  \<^verbatim>\<open>message:delivered\<close> up to its first \<^verbatim>\<open>await\<close>: the query is sent, and
  the listener waits with the document found at this moment.
\<close>

definition message_delivered_load :: "uid \<Rightarrow> sid \<Rightarrow> msgId \<Rightarrow> state \<Rightarrow> state \<times> emit list" where
  "message_delivered_load userId sid messageId s =
     (s\<lparr>pending := pending s
           @ [PendingDelivered userId sid messageId (map_get messageId (messages s))]\<rparr>, [])"

text \<open>
  The rest of \<^verbatim>\<open>message:delivered\<close>, on the copy \<open>loaded\<close>: the user is pushed
  onto \<^verbatim>\<open>deliveredTo\<close> unless the copy lists it, the status of the copy becomes
  delivered unless the copy is read, the changes are saved and the copy is sent to
  the room of the chat. A rejected save leaves the listener without a handler for
  it, and nothing is emitted.
\<close>

definition message_delivered_save ::
  "uid \<Rightarrow> sid \<Rightarrow> msgId \<Rightarrow> message option \<Rightarrow> state \<Rightarrow> state \<times> emit list"
where
  "message_delivered_save userId sid messageId loaded s =
     (case loaded of
        None \<Rightarrow> (s, [])
      | Some msg \<Rightarrow>
          (let pushed = \<not> set_has userId (deliveredTo msg);
               m1 = (if pushed then msg\<lparr>deliveredTo := deliveredTo msg @ [userId]\<rparr> else msg);
               m2 = (if mstatus m1 \<noteq> Read then m1\<lparr>mstatus := Delivered\<rparr> else m1);
               cs = (if pushed then [Push_deliveredTo userId] else [])
                    @ (if mstatus m2 \<noteq> mstatus msg then [Set_status (mstatus m2)] else [])
           in case doc_save messageId (m_version msg) cs (messages s) of
                Inl e \<Rightarrow> (s, [])
              | Inr ms \<Rightarrow>
                  (let s1 = s\<lparr>messages := ms\<rparr>;
                       out = m2\<lparr>m_version := next_version cs (m_version msg)\<rparr>
                   in (s1, io_to_room (rooms s1) (ChatRoom (m_chat out))
                             (MessageUpdate (hydrateMessageForClient s1 out))))))"

text \<open>\<^verbatim>\<open>message:read\<close>, in the same two parts.\<close>

definition message_read_load :: "uid \<Rightarrow> sid \<Rightarrow> msgId \<Rightarrow> state \<Rightarrow> state \<times> emit list" where
  "message_read_load userId sid messageId s =
     (s\<lparr>pending := pending s
           @ [PendingRead userId sid messageId (map_get messageId (messages s))]\<rparr>, [])"

definition message_read_save ::
  "uid \<Rightarrow> sid \<Rightarrow> msgId \<Rightarrow> message option \<Rightarrow> state \<Rightarrow> state \<times> emit list"
where
  "message_read_save userId sid messageId loaded s =
     (case loaded of
        None \<Rightarrow> (s, [])
      | Some msg \<Rightarrow>
          (let pushed = \<not> set_has userId (readBy msg);
               m1 = (if pushed then msg\<lparr>readBy := readBy msg @ [userId]\<rparr> else msg);
               m2 = m1\<lparr>mstatus := Read\<rparr>;
               cs = (if pushed then [Push_readBy userId] else [])
                    @ (if mstatus m2 \<noteq> mstatus msg then [Set_status (mstatus m2)] else [])
           in case doc_save messageId (m_version msg) cs (messages s) of
                Inl e \<Rightarrow> (s, [])
              | Inr ms \<Rightarrow>
                  (let s1 = s\<lparr>messages := ms\<rparr>;
                       out = m2\<lparr>m_version := next_version cs (m_version msg)\<rparr>
                   in (s1, io_to_room (rooms s1) (ChatRoom (m_chat out))
                             (MessageUpdate (hydrateMessageForClient s1 out))))))"

text \<open>
  \<^verbatim>\<open>Array.prototype.findIndex\<close> (\<open>None\<close> for \<open>-1\<close>) and
  \<^verbatim>\<open>splice(i, 1)\<close>.
\<close>

fun findIndex :: "('a \<Rightarrow> bool) \<Rightarrow> 'a list \<Rightarrow> nat option" where
  "findIndex P [] = None"
| "findIndex P (x # xs) = (if P x then Some 0 else map_option Suc (findIndex P xs))"

definition splice1 :: "nat \<Rightarrow> 'a list \<Rightarrow> 'a list" where
  "splice1 i xs = take i xs @ drop (Suc i) xs"

text \<open>
  \<^verbatim>\<open>message:react\<close> up to its first \<^verbatim>\<open>await\<close>: nothing happens for an empty
  emoji, otherwise the listener waits with the document found at this moment.
\<close>

definition message_react_load ::
  "uid \<Rightarrow> sid \<Rightarrow> msgId \<Rightarrow> string \<Rightarrow> state \<Rightarrow> state \<times> emit list"
where
  "message_react_load userId sid messageId em s =
     (if em = [] then (s, [])
      else (s\<lparr>pending := pending s
                 @ [PendingReact userId sid messageId em (map_get messageId (messages s))]\<rparr>, []))"

text \<open>
  The toggle on the copy \<open>loaded\<close>, as a change to save: the first reaction of
  this user with this emoji is spliced out of the copy's array, and when the copy
  has none a new one is pushed, stamped by the schema's default \<^verbatim>\<open>Date.now\<close>.
\<close>

definition toggle_reaction :: "uid \<Rightarrow> string \<Rightarrow> nat \<Rightarrow> reaction list \<Rightarrow> change" where
  "toggle_reaction userId em now rs =
     (case findIndex (\<lambda>r. by_user r = userId \<and> emoji r = em) rs of
        Some i \<Rightarrow> Set_reactions (splice1 i rs)
      | None \<Rightarrow> Push_reactions \<lparr>emoji = em, by_user = userId, at_time = now\<rparr>)"

text \<open>
  The rest of \<^verbatim>\<open>message:react\<close>, inside its \<^verbatim>\<open>try\<close>: the toggle, the save,
  and \<^verbatim>\<open>broadcastMsgUpdate\<close> with the copy. A save that fails is caught and
  reported to the calling socket.
\<close>

definition message_react_save ::
  "uid \<Rightarrow> sid \<Rightarrow> msgId \<Rightarrow> string \<Rightarrow> nat \<Rightarrow> message option \<Rightarrow> state \<Rightarrow> state \<times> emit list"
where
  "message_react_save userId sid messageId em now loaded s =
     (case loaded of
        None \<Rightarrow> (s, [])
      | Some msg \<Rightarrow>
          (let c = toggle_reaction userId em now (reactions msg)
           in case doc_save messageId (m_version msg) [c] (messages s) of
                Inl e \<Rightarrow>
                  (s, [(Socket sid, ErrorEv ''message:react'' (if e = [] then ''Failed to react'' else e))])
              | Inr ms \<Rightarrow>
                  (let s1 = s\<lparr>messages := ms\<rparr>;
                       out = (apply_change c msg)\<lparr>m_version := next_version [c] (m_version msg)\<rparr>
                   in (s1, emitMessageUpdate s1 out))))"

text \<open>A waiting listener goes on when its query has answered; \<open>now\<close> is the clock.\<close>

fun resume :: "pending \<Rightarrow> nat \<Rightarrow> state \<Rightarrow> state \<times> emit list" where
  "resume (PendingDelivered u x m l) now s = message_delivered_save u x m l s"
| "resume (PendingRead u x m l) now s = message_read_save u x m l s"
| "resume (PendingReact u x m e l) now s = message_react_save u x m e now l s"

text \<open>\<^verbatim>\<open>message:forward\<close>: the \<^verbatim>\<open>try\<close> block, then the listener.\<close>

definition message_forward_try ::
  "uid \<Rightarrow> sid \<Rightarrow> msgId \<Rightarrow> chatId \<Rightarrow> msgId \<Rightarrow> state \<Rightarrow> string + state \<times> emit list"
where
  "message_forward_try userId sid messageId toChatId newId s =
     (case map_get messageId (messages s) of
        None \<Rightarrow> Inl ''Source message not found''
      | Some src \<Rightarrow>
          (case map_get toChatId (chats s) of
             None \<Rightarrow> Inl ''Target chat not found''
           | Some targetChat \<Rightarrow>
               if \<not> set_has userId (participants targetChat)
               then Inl ''Not a participant of target chat''
               else
                 (let copy = \<lparr>m_id = newId, m_chat = toChatId, sender = userId,
                               mtype = mtype src,
                               m_text = (if mtype src = TText then m_text src else None),
                               mediaUrl = mediaUrl src, mediaName = mediaName src,
                               mediaSize = mediaSize src, mediaDuration = mediaDuration src,
                               replyTo = None, forwardOf = Some messageId, reactions = [],
                               mstatus = Sent, deliveredTo = [], readBy = [],
                               m_version = 0\<rparr>;
                      s1 = s\<lparr>messages := map_set newId copy (messages s)\<rparr>;
                      outSelf = hydrateMessageForClient s1 copy;
                      targetSockets = fanout_targets s1 toChatId (participants targetChat);
                      outOthers = hydrateMessageForClient s1 copy
                  in Inr (s1, (Socket sid, MessageNew outSelf)
                              # map (\<lambda>x. (Socket x, MessageNew outOthers)) targetSockets))))"

definition message_forward ::
  "uid \<Rightarrow> sid \<Rightarrow> msgId \<Rightarrow> chatId \<Rightarrow> msgId \<Rightarrow> state \<Rightarrow> state \<times> emit list"
where
  "message_forward userId sid messageId toChatId newId s =
     (case message_forward_try userId sid messageId toChatId newId s of
        Inl e \<Rightarrow> (s, [(Socket sid, ErrorEv ''message:forward'' (if e = [] then ''Forward failed'' else e))])
      | Inr r \<Rightarrow> r)"

subsection \<open>Calls\<close>

text \<open>
  \<^verbatim>\<open>call:start\<close>. \<open>newId\<close> is what \<^verbatim>\<open>makeId()\<close> returns and \<open>now\<close> is
  \<^verbatim>\<open>Date.now()\<close>; the participant test is the one of the listener, on the ids
  that \<^verbatim>\<open>getChatParticipants\<close> returns.
\<close>

definition call_start_try ::
  "uid \<Rightarrow> sid \<Rightarrow> chatId \<Rightarrow> string option \<Rightarrow> callId \<Rightarrow> nat \<Rightarrow> state \<Rightarrow> string + state \<times> emit list"
where
  "call_start_try userId sid chatId kd newId now s =
     (case map_get chatId (chats s) of
        None \<Rightarrow> Inl ''Chat not found''
      | Some ch \<Rightarrow>
          if \<not> set_has userId (participants ch) then Inl ''Not a participant''
          else
            (let k = (case kd of None \<Rightarrow> ''audio'' | Some x \<Rightarrow> x);
                 c = \<lparr>c_id = newId, c_chatId = chatId, kind = k, host = userId,
                      members = [userId], createdAt = now\<rparr>;
                 s1 = s\<lparr>activeCalls := map_set newId c (activeCalls s),
                        rooms := socket_join sid (CallRoom newId) (rooms s)\<rparr>
             in Inr (s1, (Socket sid, CallCreated newId chatId k userId (members c))
                         # concat (map (\<lambda>p. if p = userId then []
                                            else emitToUser s1 p (CallRing newId chatId k userId (isGroup ch)))
                                       (participants ch)))))"

definition call_start ::
  "uid \<Rightarrow> sid \<Rightarrow> chatId \<Rightarrow> string option \<Rightarrow> callId \<Rightarrow> nat \<Rightarrow> state \<Rightarrow> state \<times> emit list"
where
  "call_start userId sid chatId kd newId now s =
     (case call_start_try userId sid chatId kd newId now s of
        Inl e \<Rightarrow> (s, [(Socket sid, CallError (if e = [] then ''Failed to start call'' else e))])
      | Inr r \<Rightarrow> r)"

text \<open>\<^verbatim>\<open>call:accept\<close>: the only test is that the call id is in the table.\<close>

definition call_accept_try :: "uid \<Rightarrow> sid \<Rightarrow> callId \<Rightarrow> state \<Rightarrow> string + state \<times> emit list" where
  "call_accept_try userId sid callId s =
     (case map_get callId (activeCalls s) of
        None \<Rightarrow> Inl ''Call not found''
      | Some c \<Rightarrow>
          (let c' = c\<lparr>members := set_add userId (members c)\<rparr>;
               s1 = s\<lparr>activeCalls := map_set callId c' (activeCalls s),
                      rooms := socket_join sid (CallRoom callId) (rooms s)\<rparr>
           in Inr (s1, (Socket sid, CallParticipants callId (members c') (host c') (kind c'))
                       # socket_to_room sid (rooms s1) (CallRoom callId) (CallJoined callId userId))))"

definition call_accept :: "uid \<Rightarrow> sid \<Rightarrow> callId \<Rightarrow> state \<Rightarrow> state \<times> emit list" where
  "call_accept userId sid callId s =
     (case call_accept_try userId sid callId s of
        Inl e \<Rightarrow> (s, [(Socket sid, CallError (if e = [] then ''Failed to join call'' else e))])
      | Inr r \<Rightarrow> r)"

text \<open>\<^verbatim>\<open>call:reject\<close>, \<^verbatim>\<open>call:leave\<close>, \<^verbatim>\<open>call:end\<close>, \<^verbatim>\<open>call:signal\<close>.\<close>

definition call_reject :: "uid \<Rightarrow> sid \<Rightarrow> callId \<Rightarrow> state \<Rightarrow> state \<times> emit list" where
  "call_reject userId sid callId s =
     (case map_get callId (activeCalls s) of
        None \<Rightarrow> (s, [])
      | Some c \<Rightarrow> (s, emitToUser s (host c) (CallRejected callId userId)))"

definition call_leave :: "uid \<Rightarrow> sid \<Rightarrow> callId \<Rightarrow> state \<Rightarrow> state \<times> emit list" where
  "call_leave userId sid callId s =
     (case map_get callId (activeCalls s) of
        None \<Rightarrow> (s, [])
      | Some c \<Rightarrow>
          (let c' = c\<lparr>members := set_delete userId (members c)\<rparr>;
               rs = socket_leave sid (CallRoom callId) (rooms s);
               left = io_to_room rs (CallRoom callId) (CallLeft callId userId)
           in if host c' = userId \<or> members c' = []
              then (s\<lparr>activeCalls := map_delete callId (map_set callId c' (activeCalls s)), rooms := rs\<rparr>,
                    left @ io_to_room rs (CallRoom callId) (CallEnded callId ''host_left''))
              else (s\<lparr>activeCalls := map_set callId c' (activeCalls s), rooms := rs\<rparr>, left)))"

definition call_end :: "uid \<Rightarrow> sid \<Rightarrow> callId \<Rightarrow> state \<Rightarrow> state \<times> emit list" where
  "call_end userId sid callId s =
     (case map_get callId (activeCalls s) of
        None \<Rightarrow> (s, [])
      | Some c \<Rightarrow>
          if host c \<noteq> userId then (s, [])
          else (s\<lparr>activeCalls := map_delete callId (activeCalls s)\<rparr>,
                io_to_room (rooms s) (CallRoom callId) (CallEnded callId ''ended_by_host'')))"

definition call_signal :: "uid \<Rightarrow> sid \<Rightarrow> callId \<Rightarrow> uid \<Rightarrow> string \<Rightarrow> state \<Rightarrow> state \<times> emit list" where
  "call_signal userId sid callId toUserId d s =
     (case map_get callId (activeCalls s) of
        None \<Rightarrow> (s, [])
      | Some c \<Rightarrow> (s, emitToUser s toUserId (CallSignal callId userId d)))"

subsection \<open>The server as a transition system\<close>

text \<open>
  What a client, or the transport, can make the gateway do. Ids that the store or
  \<^verbatim>\<open>makeId\<close> produce and the clock are part of the event. A receipt or a
  reaction makes its listener load the message and wait; \<open>Resume i now\<close> lets
  the \<open>i\<close>-th waiting listener go on, at any later moment. The listeners for
  typing, history, edit, delete, star and pin are left out: they write neither
  registry, nor a room, nor the status or the reactions of a message (star and
  delete-for-me change an array of the message and so raise its version key).
\<close>

datatype client_event =
    Connect uid sid nat
  | Disconnect uid sid nat
  | ChatJoin sid chatId
  | ChatLeave sid chatId
  | Send uid sid send_payload msgId nat
  | MarkDelivered uid sid msgId
  | MarkRead uid sid msgId
  | React uid sid msgId string
  | Resume nat nat
  | Forward uid sid msgId chatId msgId
  | CallStart uid sid chatId "string option" callId nat
  | CallAccept uid sid callId
  | CallReject uid sid callId
  | CallLeave uid sid callId
  | CallEnd uid sid callId
  | CallSignalTo uid sid callId uid string

fun step :: "state \<Rightarrow> client_event \<Rightarrow> state \<times> emit list" where
  "step s (Connect u x now) = on_connection u x now s"
| "step s (Disconnect u x now) = socket_disconnect u x now s"
| "step s (ChatJoin x c) = (s\<lparr>rooms := socket_join x (ChatRoom c) (rooms s)\<rparr>, [])"
| "step s (ChatLeave x c) = (s\<lparr>rooms := socket_leave x (ChatRoom c) (rooms s)\<rparr>, [])"
| "step s (Send u x p n now) = message_send u x p n now s"
| "step s (MarkDelivered u x m) = message_delivered_load u x m s"
| "step s (MarkRead u x m) = message_read_load u x m s"
| "step s (React u x m e) = message_react_load u x m e s"
| "step s (Resume i now) =
     (if i < length (pending s)
      then resume (pending s ! i) now (s\<lparr>pending := splice1 i (pending s)\<rparr>)
      else (s, []))"
| "step s (Forward u x m c n) = message_forward u x m c n s"
| "step s (CallStart u x c k n now) = call_start u x c k n now s"
| "step s (CallAccept u x c) = call_accept u x c s"
| "step s (CallReject u x c) = call_reject u x c s"
| "step s (CallLeave u x c) = call_leave u x c s"
| "step s (CallEnd u x c) = call_end u x c s"
| "step s (CallSignalTo u x c t d) = call_signal u x c t d s"

text \<open>The state after a sequence of events, and everything emitted on the way.\<close>

fun run :: "state \<Rightarrow> client_event list \<Rightarrow> state \<times> emit list" where
  "run s [] = (s, [])"
| "run s (e # es) =
     (let r1 = step s e; r2 = run (fst r1) es in (fst r2, snd r1 @ snd r2))"

text \<open>The server at start: empty registries and rooms over a database.\<close>

definition server_start ::
  "(chatId \<times> chat) list \<Rightarrow> (uid \<times> user) list \<Rightarrow> (msgId \<times> message) list \<Rightarrow> state"
where
  "server_start cs us ms =
     \<lparr>onlineUsers = [], activeCalls = [], rooms = [], chats = cs, users = us, messages = ms,
      pending = []\<rparr>"

subsection \<open>Notions the properties are stated with\<close>

text \<open>The order of the delivery states: sent, then delivered, then read.\<close>

definition status_rank :: "status \<Rightarrow> nat" where
  "status_rank st = (case st of Sent \<Rightarrow> 0 | Delivered \<Rightarrow> 1 | Read \<Rightarrow> 2)"

fun is_message_new :: "event \<Rightarrow> bool" where
  "is_message_new (MessageNew h) = True"
| "is_message_new _ = False"

fun is_call_ended :: "callId \<Rightarrow> event \<Rightarrow> bool" where
  "is_call_ended cid (CallEnded c r) = (c = cid)"
| "is_call_ended cid _ = False"

text \<open>What reaches a user: the events received by the sockets registered for it.\<close>

definition user_received :: "state \<Rightarrow> uid \<Rightarrow> emit list \<Rightarrow> event list" where
  "user_received s u es = concat (map (\<lambda>x. received x es) (sessionsOf s u))"

subsection \<open>A small database for the examples\<close>

text \<open>
  Alice has blocked Bob. \<open>dm1\<close> is their direct chat, \<open>g1\<close> a group of Alice
  and Bob that Carol is not part of, \<open>m1\<close> a message of Alice in \<open>g1\<close> that
  has been read and carries two reactions.
\<close>

definition demo_users :: "(uid \<times> user) list" where
  "demo_users =
     [(''alice'', \<lparr>u_name = ''Alice'', u_blocked = [''bob''], u_lastSeen = 0\<rparr>),
      (''bob'', \<lparr>u_name = ''Bob'', u_blocked = [], u_lastSeen = 0\<rparr>),
      (''carol'', \<lparr>u_name = ''Carol'', u_blocked = [], u_lastSeen = 0\<rparr>)]"

definition demo_chats :: "(chatId \<times> chat) list" where
  "demo_chats =
     [(''dm1'', \<lparr>isGroup = False, participants = [''alice'', ''bob''], admins = [],
                onlyAdminsCanMessage = False, lastMessageAt = None\<rparr>),
      (''g1'', \<lparr>isGroup = True, participants = [''alice'', ''bob''], admins = [''alice''],
               onlyAdminsCanMessage = False, lastMessageAt = None\<rparr>)]"

definition demo_message :: message where
  "demo_message =
     \<lparr>m_id = ''m1'', m_chat = ''g1'', sender = ''alice'', mtype = TText, m_text = Some ''hello'',
      mediaUrl = None, mediaName = None, mediaSize = None, mediaDuration = None,
      replyTo = None, forwardOf = None,
      reactions = [\<lparr>emoji = ''+1'', by_user = ''alice'', at_time = 1\<rparr>,
                   \<lparr>emoji = ''heart'', by_user = ''bob'', at_time = 2\<rparr>],
      mstatus = Read, deliveredTo = [''bob''], readBy = [''bob''], m_version = 0\<rparr>"

definition demo_payload :: "chatId \<Rightarrow> send_payload" where
  "demo_payload c =
     \<lparr>sp_chatId = c, sp_text = Some ''hi'', sp_type = Some TText, sp_mediaUrl = None,
      sp_mediaName = None, sp_mediaSize = None, sp_mediaDuration = None,
      sp_clientId = Some ''tmp-1'', sp_replyToId = None\<rparr>"

definition demo_start :: state where
  "demo_start = server_start demo_chats demo_users [(''m1'', demo_message)]"

text \<open>
  Alice, Bob (on two sockets) and Carol are connected; Alice has started the call
  \<open>call1\<close> in \<open>g1\<close> and Bob has accepted it on his first socket.
\<close>

definition demo_call :: state where
  "demo_call = fst (run demo_start
     [Connect ''alice'' ''sa'' 1, Connect ''bob'' ''sb1'' 2, Connect ''bob'' ''sb2'' 3,
      Connect ''carol'' ''sc'' 4, CallStart ''alice'' ''sa'' ''g1'' None ''call1'' 5,
      CallAccept ''bob'' ''sb1'' ''call1''])"

text \<open>How many \<^verbatim>\<open>call:ended\<close> events for a call a socket receives.\<close>

definition ended_count :: "callId \<Rightarrow> sid \<Rightarrow> emit list \<Rightarrow> nat" where
  "ended_count cid y es = length (filter (is_call_ended cid) (received y es))"

text \<open>
  What JavaScript and the gateway guarantee of the two tables: a \<^verbatim>\<open>Map\<close> holds a
  key once, a \<^verbatim>\<open>Set\<close> an element once, and the host of a call is one of its
  members for as long as the call is in the table.
\<close>

definition calls_ok :: "(callId \<times> call) list \<Rightarrow> bool" where
  "calls_ok cs = (distinct (map fst cs) \<and> list_all (\<lambda>e. set_has (host (snd e)) (members (snd e))) cs)"

definition rooms_ok :: "(room \<times> sid list) list \<Rightarrow> bool" where
  "rooms_ok rs = (distinct (map fst rs) \<and> list_all (\<lambda>e. distinct (snd e)) rs)"

text \<open>
  As \<open>demo_call\<close>, and Alice has sent the message \<open>m2\<close> into \<open>g1\<close>; as
  \<open>demo_call\<close>, and Bob has accepted the call on his second socket too.
\<close>

definition demo_sent :: state where
  "demo_sent = fst (step demo_call (Send ''alice'' ''sa'' (demo_payload ''g1'') ''m2'' 6))"

definition demo_call2 :: state where
  "demo_call2 = fst (step demo_call (CallAccept ''bob'' ''sb2'' ''call1''))"

section \<open>Properties\<close>

subsection \<open>Map and Set laws\<close>

lemma map_get_map_set: "map_get k' (map_set k v m) = (if k' = k then Some v else map_get k' m)"
  by (induction m) (auto simp: map_get_def)

lemma map_get_map_delete: "map_get k' (map_delete k m) = (if k' = k then None else map_get k' m)"
  by (induction m) (auto simp: map_get_def map_delete_def)

lemma map_has_get: "map_has k m = (map_get k m \<noteq> None)"
  by (simp add: map_has_def map_get_def)

lemma set_add_not_Nil: "set_add x xs \<noteq> []"
  by (auto simp: set_add_def)

subsection \<open>Presence\<close>

text \<open>No listener ever leaves an empty set in \<^verbatim>\<open>onlineUsers\<close>.\<close>

lemma online_connection:
  assumes "\<forall>u. map_get u (onlineUsers s) \<noteq> Some []"
  shows "\<forall>u. map_get u (onlineUsers (fst (on_connection v x now s))) \<noteq> Some []"
  using assms
  by (auto simp: on_connection_def Let_def map_get_map_set map_has_get set_add_not_Nil
           split: option.splits if_splits)

lemma online_disconnect:
  assumes "\<forall>u. map_get u (onlineUsers s) \<noteq> Some []"
  shows "\<forall>u. map_get u (onlineUsers (fst (on_disconnect v x now s))) \<noteq> Some []"
  using assms
  by (auto simp: on_disconnect_def Let_def map_get_map_set map_get_map_delete
           split: option.splits if_splits)

lemma online_socket_disconnect:
  assumes "\<forall>u. map_get u (onlineUsers s) \<noteq> Some []"
  shows "\<forall>u. map_get u (onlineUsers (fst (socket_disconnect v x now s))) \<noteq> Some []"
  using online_disconnect [of "s\<lparr>rooms := socket_leave_all x (rooms s)\<rparr>" v x now] assms
  by (simp add: socket_disconnect_def)

lemma online_message_send: "onlineUsers (fst (message_send u x p n now s)) = onlineUsers s"
  by (simp add: message_send_def message_send_try_def Let_def split: option.splits sum.splits if_splits)

lemma online_loads:
  "onlineUsers (fst (message_delivered_load u x m s)) = onlineUsers s"
  "onlineUsers (fst (message_read_load u x m s)) = onlineUsers s"
  "onlineUsers (fst (message_react_load u x m e s)) = onlineUsers s"
  by (simp_all add: message_delivered_load_def message_read_load_def message_react_load_def)

lemma online_message_delivered:
  "onlineUsers (fst (message_delivered_save u x m l s)) = onlineUsers s"
  by (simp add: message_delivered_save_def Let_def split: option.splits sum.splits)

lemma online_message_read:
  "onlineUsers (fst (message_read_save u x m l s)) = onlineUsers s"
  by (simp add: message_read_save_def Let_def split: option.splits sum.splits)

lemma online_message_react:
  "onlineUsers (fst (message_react_save u x m e now l s)) = onlineUsers s"
  by (simp add: message_react_save_def Let_def split: option.splits sum.splits)

lemma online_resume: "onlineUsers (fst (resume p now s)) = onlineUsers s"
  by (cases p) (simp_all add: online_message_delivered online_message_read online_message_react)

lemma online_message_forward: "onlineUsers (fst (message_forward u x m c n s)) = onlineUsers s"
  by (simp add: message_forward_def message_forward_try_def Let_def split: option.splits sum.splits if_splits)

lemma online_call_start: "onlineUsers (fst (call_start u x c k n now s)) = onlineUsers s"
  by (simp add: call_start_def call_start_try_def Let_def split: option.splits sum.splits if_splits)

lemma online_call_accept: "onlineUsers (fst (call_accept u x c s)) = onlineUsers s"
  by (simp add: call_accept_def call_accept_try_def Let_def split: option.splits sum.splits)

lemma online_call_reject: "onlineUsers (fst (call_reject u x c s)) = onlineUsers s"
  by (simp add: call_reject_def split: option.splits)

lemma online_call_leave: "onlineUsers (fst (call_leave u x c s)) = onlineUsers s"
  by (simp add: call_leave_def Let_def split: option.splits)

lemma online_call_end: "onlineUsers (fst (call_end u x c s)) = onlineUsers s"
  by (simp add: call_end_def split: option.splits)

lemma online_call_signal: "onlineUsers (fst (call_signal u x c t d s)) = onlineUsers s"
  by (simp add: call_signal_def split: option.splits)

lemma online_step:
  assumes "\<forall>u. map_get u (onlineUsers s) \<noteq> Some []"
  shows "\<forall>u. map_get u (onlineUsers (fst (step s e))) \<noteq> Some []"
proof (cases e)
  case (Connect v x now)
  then show ?thesis using online_connection [OF assms] by simp
next
  case (Disconnect v x now)
  then show ?thesis using online_socket_disconnect [OF assms] by simp
qed (use assms in \<open>simp_all add: online_message_send online_loads online_resume
      online_message_forward online_call_start online_call_accept
      online_call_reject online_call_leave online_call_end online_call_signal\<close>)

lemma online_run:
  assumes "\<forall>u. map_get u (onlineUsers s) \<noteq> Some []"
  shows "\<forall>u. map_get u (onlineUsers (fst (run s es))) \<noteq> Some []"
  using assms
proof (induction es arbitrary: s)
  case Nil
  then show ?case by simp
next
  case (Cons e es)
  from online_step [OF Cons.prems]
  have "\<forall>u. map_get u (onlineUsers (fst (step s e))) \<noteq> Some []" .
  from Cons.IH [OF this] show ?case by (simp add: Let_def)
qed

text \<open>
  Claim C2. In every state the server reaches from its start, by any sequence of
  connections, disconnections and other client events, a user is reported online
  (\<^verbatim>\<open>onlineUsers.has\<close>) if and only if its set of registered sockets is not empty.
\<close>

theorem presence_invariant:
  "isOnline (fst (run (server_start cs us ms) es)) u
     \<longleftrightarrow> sessionsOf (fst (run (server_start cs us ms) es)) u \<noteq> []"
proof -
  have "\<forall>u. map_get u (onlineUsers (server_start cs us ms)) \<noteq> Some []"
    by (simp add: server_start_def map_get_def)
  from online_run [OF this]
  have "map_get u (onlineUsers (fst (run (server_start cs us ms) es))) \<noteq> Some []" by blast
  then show ?thesis
    by (auto simp: isOnline_def sessionsOf_def map_has_get split: option.splits)
qed

text \<open>
  Two sockets of one user connect and the first one closes: the second is still
  registered, so the user is online.
\<close>

theorem presence_invariant_witness:
  "isOnline (fst (run (server_start [] [] [])
       [Connect ''u1'' ''s1'' 1, Connect ''u1'' ''s2'' 2, Disconnect ''u1'' ''s1'' 3])) ''u1''"
proof -
  have "sessionsOf (fst (run (server_start [] [] [])
       [Connect ''u1'' ''s1'' 1, Connect ''u1'' ''s2'' 2, Disconnect ''u1'' ''s1'' 3])) ''u1'' = [''s2'']"
    by code_simp
  then show ?thesis
    using presence_invariant [of "[]" "[]" "[]"
        "[Connect ''u1'' ''s1'' 1, Connect ''u1'' ''s2'' 2, Disconnect ''u1'' ''s1'' 3]" "''u1''"]
    by simp
qed

subsection \<open>Call operations on an unknown call id\<close>

lemma call_ops_unknown:
  assumes "map_get callId (activeCalls s) = None"
  shows "call_accept u x callId s = (s, [(Socket x, CallError ''Call not found'')])"
    and "call_reject u x callId s = (s, [])"
    and "call_leave u x callId s = (s, [])"
    and "call_end u x callId s = (s, [])"
    and "call_signal u x callId t d s = (s, [])"
  using assms
  by (simp_all add: call_accept_def call_accept_try_def call_reject_def call_leave_def
        call_end_def call_signal_def)

text \<open>
  Claim C6, as stated, fails: \<^verbatim>\<open>call:leave\<close> with an id that is not in the table
  returns at \<^verbatim>\<open>if (!call) return\<close> and nothing at all reaches the invoking
  socket.
\<close>

theorem unknown_call_leave_reports_nothing:
  "map_get ''call9'' (activeCalls demo_start) = None
   \<and> received ''sb1'' (snd (call_leave ''bob'' ''sb1'' ''call9'' demo_start)) = []"
  by (simp add: demo_start_def server_start_def map_get_def call_leave_def received_def)

text \<open>
  Claim C6, amended. A call operation with an id that is not in the table leaves
  the state as it is and throws nothing into the connection handler. Only
  \<^verbatim>\<open>call:accept\<close> reports it, with a \<^verbatim>\<open>call:error\<close> event to the invoking
  socket; reject, leave, end and signal return without emitting anything.
\<close>

theorem unknown_call_is_noop:
  assumes "map_get callId (activeCalls s) = None"
  shows "call_accept u x callId s = (s, [(Socket x, CallError ''Call not found'')])
       \<and> call_reject u x callId s = (s, [])
       \<and> call_leave u x callId s = (s, [])
       \<and> call_end u x callId s = (s, [])
       \<and> call_signal u x callId t d s = (s, [])"
  using call_ops_unknown [OF assms] by simp

theorem unknown_call_is_noop_witness:
  "call_accept ''bob'' ''sb1'' ''call9'' demo_start
      = (demo_start, [(Socket ''sb1'', CallError ''Call not found'')])
   \<and> call_reject ''bob'' ''sb1'' ''call9'' demo_start = (demo_start, [])
   \<and> call_leave ''bob'' ''sb1'' ''call9'' demo_start = (demo_start, [])
   \<and> call_end ''bob'' ''sb1'' ''call9'' demo_start = (demo_start, [])
   \<and> call_signal ''bob'' ''sb1'' ''call9'' ''alice'' ''sdp'' demo_start = (demo_start, [])"
proof -
  have "map_get ''call9'' (activeCalls demo_start) = None"
    by (simp add: demo_start_def server_start_def map_get_def)
  from unknown_call_is_noop [OF this] show ?thesis .
qed

subsection \<open>Sending into a direct chat across a block\<close>

lemma populate_mem:
  assumes "a \<in> set ps" and "map_get a us = Some d"
  shows "\<lparr>p_id = a, p_blocked = u_blocked d\<rparr> \<in> set (populate_participants us ps)"
  using assms by (induction ps) (auto simp: populate_participants_def)

lemma dm_block_error_blocked:
  assumes "q \<in> set ps" and "p_id q \<noteq> b" and "b \<in> set (p_blocked q)"
  shows "dm_block_error b ps = Some ''You blocked this contact''
       \<or> dm_block_error b ps = Some ''Recipient blocked you''"
proof -
  from assms have "list_ex (\<lambda>p. set_has b (p_blocked p)) (filter (\<lambda>u. p_id u \<noteq> b) ps)"
    by (auto simp: list_ex_iff set_has_def)
  then show ?thesis
    by (simp add: dm_block_error_def Let_def)
qed

text \<open>
  Claim C7. In a direct chat one of whose participants, A, has blocked the sender B,
  a \<^verbatim>\<open>message:send\<close> of B changes nothing in the state, so no message is stored,
  and emits exactly one event: an \<^verbatim>\<open>error\<close> to B's sending socket. Its text is
  that the recipient blocked the sender, unless B has itself blocked the other
  side, which the listener tests first.
\<close>

theorem blocked_dm_send:
  assumes "map_get (sp_chatId p) (chats s) = Some ch" and "\<not> isGroup ch"
    and "a \<in> set (participants ch)" and "a \<noteq> b"
    and "map_get a (users s) = Some d" and "b \<in> set (u_blocked d)"
  shows "message_send b x p newId now s
           = (s, [(Socket x, ErrorEv ''message:send'' ''You blocked this contact'')])
       \<or> message_send b x p newId now s
           = (s, [(Socket x, ErrorEv ''message:send'' ''Recipient blocked you'')])"
proof -
  let ?q = "\<lparr>p_id = a, p_blocked = u_blocked d\<rparr>"
  have "?q \<in> set (populate_participants (users s) (participants ch))"
    using populate_mem [OF assms(3) assms(5)] .
  moreover have "p_id ?q \<noteq> b" using assms(4) by simp
  moreover have "b \<in> set (p_blocked ?q)" using assms(6) by simp
  ultimately have
    "dm_block_error b (populate_participants (users s) (participants ch))
        = Some ''You blocked this contact''
     \<or> dm_block_error b (populate_participants (users s) (participants ch))
        = Some ''Recipient blocked you''"
    by (rule dm_block_error_blocked)
  then show ?thesis
    using assms(1,2)
    by (auto simp: message_send_def message_send_try_def Let_def)
qed

text \<open>Bob, whom Alice has blocked, sends into \<open>dm1\<close> while both are connected.\<close>

theorem blocked_dm_send_witness:
  "message_send ''bob'' ''sb1'' (demo_payload ''dm1'') ''m9'' 7 demo_call
     = (demo_call, [(Socket ''sb1'', ErrorEv ''message:send'' ''You blocked this contact'')])
   \<or> message_send ''bob'' ''sb1'' (demo_payload ''dm1'') ''m9'' 7 demo_call
     = (demo_call, [(Socket ''sb1'', ErrorEv ''message:send'' ''Recipient blocked you'')])"
proof -
  have c: "chats demo_call = demo_chats" by code_simp
  have u: "map_get ''alice'' (users demo_call)
             = Some \<lparr>u_name = ''Alice'', u_blocked = [''bob''], u_lastSeen = 1\<rparr>" by code_simp
  have h1: "map_get (sp_chatId (demo_payload ''dm1'')) (chats demo_call)
              = Some \<lparr>isGroup = False, participants = [''alice'', ''bob''], admins = [],
                      onlyAdminsCanMessage = False, lastMessageAt = None\<rparr>"
    unfolding c by (simp add: demo_payload_def demo_chats_def map_get_def)
  show ?thesis
    by (rule blocked_dm_send [OF h1 _ _ _ u]) simp_all
qed

subsection \<open>Joining and starting a call\<close>

text \<open>
  Claim C9. \<^verbatim>\<open>call:accept\<close> on a call that is in the table adds the accepting
  user to its members, answers the accepting socket with the member list and tells
  every other socket in the call's room that the user joined; nothing in it looks
  at the chat of the call, so this holds for any user. \<^verbatim>\<open>call:start\<close> by a
  user who is not a participant of the chat only reports an error.
\<close>

theorem accept_has_no_participant_check:
  "(map_get callId (activeCalls s) = Some c \<longrightarrow>
      map_get callId (activeCalls (fst (call_accept u x callId s)))
          = Some (c\<lparr>members := set_add u (members c)\<rparr>)
      \<and> set_has u (set_add u (members c))
      \<and> snd (call_accept u x callId s)
          = (Socket x, CallParticipants callId (set_add u (members c)) (host c) (kind c))
            # map (\<lambda>y. (Socket y, CallJoined callId u))
                (filter (\<lambda>y. y \<noteq> x) (set_add x (room_sids (rooms s) (CallRoom callId)))))
   \<and> (map_get chatId (chats s) = Some ch \<and> \<not> set_has u (participants ch) \<longrightarrow>
        call_start u x chatId k n now s = (s, [(Socket x, CallError ''Not a participant'')]))"
  by (auto simp: call_accept_def call_accept_try_def call_start_def call_start_try_def Let_def
        map_get_map_set socket_to_room_def socket_join_def room_sids_def set_has_def set_add_def)

text \<open>
  Carol is not a participant of \<open>g1\<close>: she cannot start a call there, yet she
  joins the call that is running there, and the sockets of Alice and Bob are told.
\<close>

theorem accept_has_no_participant_check_witness:
  "map_get ''call1'' (activeCalls (fst (call_accept ''carol'' ''sc'' ''call1'' demo_call)))
     = Some \<lparr>c_id = ''call1'', c_chatId = ''g1'', kind = ''audio'', host = ''alice'',
             members = [''alice'', ''bob'', ''carol''], createdAt = 5\<rparr>
   \<and> snd (call_accept ''carol'' ''sc'' ''call1'' demo_call)
     = [(Socket ''sc'', CallParticipants ''call1'' [''alice'', ''bob'', ''carol''] ''alice'' ''audio''),
        (Socket ''sa'', CallJoined ''call1'' ''carol''),
        (Socket ''sb1'', CallJoined ''call1'' ''carol'')]
   \<and> call_start ''carol'' ''sc'' ''g1'' None ''call2'' 9 demo_call
     = (demo_call, [(Socket ''sc'', CallError ''Not a participant'')])"
proof -
  let ?c = "\<lparr>c_id = ''call1'', c_chatId = ''g1'', kind = ''audio'', host = ''alice'',
             members = [''alice'', ''bob''], createdAt = 5\<rparr>"
  let ?ch = "\<lparr>isGroup = True, participants = [''alice'', ''bob''], admins = [''alice''],
              onlyAdminsCanMessage = False, lastMessageAt = None\<rparr>"
  have h1: "map_get ''call1'' (activeCalls demo_call) = Some ?c" by code_simp
  have h2: "map_get ''g1'' (chats demo_call) = Some ?ch" by code_simp
  have h3: "room_sids (rooms demo_call) (CallRoom ''call1'') = [''sa'', ''sb1'']" by code_simp
  from h1 h2 h3
    accept_has_no_participant_check [of "''call1''" demo_call ?c "''carol''" "''sc''" "''g1''" ?ch
      None "''call2''" 9]
  show ?thesis
    by (simp add: set_add_def set_has_def)
qed

subsection \<open>The sweep of calls at a disconnect\<close>

lemma sweep_calls_state:
  "fst (sweep_calls u rs cs)
     = map (\<lambda>e. (fst e, (snd e)\<lparr>members := set_delete u (members (snd e))\<rparr>))
         (filter (\<lambda>e. \<not> (set_has u (members (snd e))
                        \<and> (host (snd e) = u \<or> set_delete u (members (snd e)) = []))) cs)"
  by (induction cs) (auto simp: Let_def set_has_def set_delete_def)

lemma sweep_calls_ended:
  assumes "e \<in> set cs" and "set_has u (members (snd e))"
    and "host (snd e) = u \<or> set_delete u (members (snd e)) = []"
  shows "set (io_to_room rs (CallRoom (fst e)) (CallEnded (fst e) ''host_left''))
           \<subseteq> set (snd (sweep_calls u rs cs))"
  using assms
  by (induction cs) (auto simp: Let_def)

lemma disconnect_activeCalls:
  "activeCalls (fst (socket_disconnect u x now s))
     = fst (sweep_calls u (socket_leave_all x (rooms s)) (activeCalls s))"
  by (simp add: socket_disconnect_def on_disconnect_def Let_def)

lemma disconnect_emits:
  "snd (socket_disconnect u x now s)
     = (Everyone, PresenceUpdate u (isOnline (fst (socket_disconnect u x now s)) u))
       # snd (sweep_calls u (socket_leave_all x (rooms s)) (activeCalls s))"
  by (simp add: socket_disconnect_def on_disconnect_def Let_def isOnline_def)

text \<open>
  Claim C10. When a socket of user U closes, the listener goes through the whole
  table of calls, whatever \<^verbatim>\<open>onlineUsers\<close> still holds for U: a call that lists
  U and whose host is U, or that U was the last member of, is deleted and
  \<^verbatim>\<open>call:ended\<close> is sent to its room; every other call stays, with U taken out of
  its members. No call lists U afterwards.
\<close>

theorem disconnect_leaves_every_call:
  "activeCalls (fst (socket_disconnect u x now s))
     = map (\<lambda>e. (fst e, (snd e)\<lparr>members := set_delete u (members (snd e))\<rparr>))
         (filter (\<lambda>e. \<not> (set_has u (members (snd e))
                        \<and> (host (snd e) = u \<or> set_delete u (members (snd e)) = [])))
            (activeCalls s))
   \<and> (\<forall>e \<in> set (activeCalls (fst (socket_disconnect u x now s))). \<not> set_has u (members (snd e)))
   \<and> (\<forall>e \<in> set (activeCalls s).
         set_has u (members (snd e)) \<and> (host (snd e) = u \<or> set_delete u (members (snd e)) = [])
         \<longrightarrow> set (io_to_room (socket_leave_all x (rooms s)) (CallRoom (fst e))
                    (CallEnded (fst e) ''host_left''))
               \<subseteq> set (snd (socket_disconnect u x now s)))"
proof -
  have "\<forall>e \<in> set (activeCalls (fst (socket_disconnect u x now s))). \<not> set_has u (members (snd e))"
    unfolding disconnect_activeCalls sweep_calls_state
    by (auto simp: set_has_def set_delete_def)
  moreover have "\<forall>e \<in> set (activeCalls s).
         set_has u (members (snd e)) \<and> (host (snd e) = u \<or> set_delete u (members (snd e)) = [])
         \<longrightarrow> set (io_to_room (socket_leave_all x (rooms s)) (CallRoom (fst e))
                    (CallEnded (fst e) ''host_left''))
               \<subseteq> set (snd (socket_disconnect u x now s))"
    unfolding disconnect_emits
    using sweep_calls_ended [of _ "activeCalls s" u "socket_leave_all x (rooms s)"]
    by auto
  ultimately show ?thesis
    unfolding disconnect_activeCalls sweep_calls_state by simp
qed

text \<open>
  Bob's second socket, which never joined the call, closes. Bob is still online
  through his first socket, which sits in the call's room, and is no longer a
  member of the call.
\<close>

theorem disconnect_leaves_every_call_witness:
  "isOnline (fst (socket_disconnect ''bob'' ''sb2'' 9 demo_call)) ''bob''
   \<and> set_has ''bob'' (members (snd (hd (activeCalls demo_call))))
   \<and> activeCalls (fst (socket_disconnect ''bob'' ''sb2'' 9 demo_call))
       = [(''call1'', \<lparr>c_id = ''call1'', c_chatId = ''g1'', kind = ''audio'', host = ''alice'',
                       members = [''alice''], createdAt = 5\<rparr>)]"
proof -
  have h1: "activeCalls demo_call
      = [(''call1'', \<lparr>c_id = ''call1'', c_chatId = ''g1'', kind = ''audio'', host = ''alice'',
                      members = [''alice'', ''bob''], createdAt = 5\<rparr>)]" by code_simp
  have h2: "isOnline (fst (socket_disconnect ''bob'' ''sb2'' 9 demo_call)) ''bob''" by code_simp
  from h1 h2 disconnect_leaves_every_call [of "''bob''" "''sb2''" 9 demo_call]
  show ?thesis
    by (simp add: set_has_def set_delete_def)
qed

subsection \<open>The example state, evaluated\<close>

lemma demo_call_value:
  "demo_call =
   \<lparr>onlineUsers = [(''alice'', [''sa'']), (''bob'', [''sb1'', ''sb2'']), (''carol'', [''sc''])],
    activeCalls = [(''call1'', \<lparr>c_id = ''call1'', c_chatId = ''g1'', kind = ''audio'', host = ''alice'',
                      members = [''alice'', ''bob''], createdAt = 5\<rparr>)],
    rooms = [(CallRoom ''call1'', [''sa'', ''sb1''])],
    chats = demo_chats,
    users = [(''alice'', \<lparr>u_name = ''Alice'', u_blocked = [''bob''], u_lastSeen = 1\<rparr>),
             (''bob'', \<lparr>u_name = ''Bob'', u_blocked = [], u_lastSeen = 3\<rparr>),
             (''carol'', \<lparr>u_name = ''Carol'', u_blocked = [], u_lastSeen = 4\<rparr>)],
    messages = [(''m1'', demo_message)],
    pending = []\<rparr>"
  by code_simp

lemma demo_sent_value:
  "demo_sent =
   \<lparr>onlineUsers = [(''alice'', [''sa'']), (''bob'', [''sb1'', ''sb2'']), (''carol'', [''sc''])],
    activeCalls = [(''call1'', \<lparr>c_id = ''call1'', c_chatId = ''g1'', kind = ''audio'', host = ''alice'',
                      members = [''alice'', ''bob''], createdAt = 5\<rparr>)],
    rooms = [(CallRoom ''call1'', [''sa'', ''sb1''])],
    chats = [(''dm1'', \<lparr>isGroup = False, participants = [''alice'', ''bob''], admins = [],
                       onlyAdminsCanMessage = False, lastMessageAt = None\<rparr>),
             (''g1'', \<lparr>isGroup = True, participants = [''alice'', ''bob''], admins = [''alice''],
                      onlyAdminsCanMessage = False, lastMessageAt = Some 6\<rparr>)],
    users = [(''alice'', \<lparr>u_name = ''Alice'', u_blocked = [''bob''], u_lastSeen = 1\<rparr>),
             (''bob'', \<lparr>u_name = ''Bob'', u_blocked = [], u_lastSeen = 3\<rparr>),
             (''carol'', \<lparr>u_name = ''Carol'', u_blocked = [], u_lastSeen = 4\<rparr>)],
    messages = [(''m1'', demo_message),
                (''m2'', \<lparr>m_id = ''m2'', m_chat = ''g1'', sender = ''alice'', mtype = TText,
                         m_text = Some ''hi'', mediaUrl = None, mediaName = None, mediaSize = None,
                         mediaDuration = None, replyTo = None, forwardOf = None, reactions = [],
                         mstatus = Sent, deliveredTo = [], readBy = [], m_version = 0\<rparr>)],
    pending = []\<rparr>"
  unfolding demo_sent_def demo_call_value
  by (simp add: message_send_def message_send_try_def demo_payload_def demo_chats_def map_get_def
      Let_def populate_participants_def sent_message_def truthy_def)

subsection \<open>Who may send\<close>

lemma distinct_set_add: "distinct t \<Longrightarrow> distinct (set_add x t)"
  by (simp add: set_add_def)

lemma distinct_set_add_all: "distinct t \<Longrightarrow> distinct (set_add_all xs t)"
  by (induction xs arbitrary: t) (simp_all add: distinct_set_add)

lemma set_set_add: "set (set_add x t) = insert x (set t)"
  by (auto simp: set_add_def)

lemma distinct_fanout_targets: "distinct (fanout_targets s c us)"
  by (simp add: fanout_targets_def distinct_set_add_all)

lemma emits_to_distinct:
  assumes "distinct tg"
  shows "distinct (map fst (map (\<lambda>y. (Socket y, ev)) tg))"
  using assms by (simp add: distinct_map comp_def inj_on_def)

lemma message_send_shape:
  assumes "message_send_try u x p n now s = Inr r"
  shows "snd r = map (\<lambda>y. (Socket y, MessageNew
                       ((hydrateMessageForClient (fst r) (sent_message u p n))
                          \<lparr>h_clientId := truthy (sp_clientId p)\<rparr>)))
                   (set_add x (fanout_targets s (sp_chatId p)
                      (map p_id (populate_participants (users s)
                         (case map_get (sp_chatId p) (chats s) of
                            Some ch \<Rightarrow> participants ch | None \<Rightarrow> [])))))
       \<and> map_get n (messages (fst r)) = Some (sent_message u p n)"
  using assms
  unfolding message_send_try_def Let_def
  by (auto simp: map_get_map_set split: option.splits if_splits)

text \<open>
  A send that passes the guards of the listener stores the message under the new
  id and emits \<^verbatim>\<open>message:new\<close>, with the client id of the request, once to each
  socket of a duplicate-free target list that contains the sending socket.
\<close>

lemma message_send_once:
  assumes "message_send_try u x p n now s = Inr r"
  shows "distinct (map fst (snd r)) \<and> Socket x \<in> set (map fst (snd r))
       \<and> (\<forall>e \<in> set (snd r). is_message_new (snd e))
       \<and> map_get n (messages (fst r)) = Some (sent_message u p n)"
proof -
  let ?tg = "fanout_targets s (sp_chatId p)
               (map p_id (populate_participants (users s)
                  (case map_get (sp_chatId p) (chats s) of
                     Some ch \<Rightarrow> participants ch | None \<Rightarrow> [])))"
  let ?out = "(hydrateMessageForClient (fst r) (sent_message u p n))
                \<lparr>h_clientId := truthy (sp_clientId p)\<rparr>"
  from message_send_shape [OF assms] have
    es: "snd r = map (\<lambda>y. (Socket y, MessageNew ?out)) (set_add x ?tg)"
    and st: "map_get n (messages (fst r)) = Some (sent_message u p n)"
    by simp_all
  have "distinct (set_add x ?tg)"
    by (rule distinct_set_add [OF distinct_fanout_targets])
  then have "distinct (map fst (snd r))" unfolding es by (rule emits_to_distinct)
  moreover have "Socket x \<in> set (map fst (snd r))"
    unfolding es by (simp add: set_set_add image_iff)
  moreover have "\<forall>e \<in> set (snd r). is_message_new (snd e)"
    unfolding es by simp
  ultimately show ?thesis using st by simp
qed

text \<open>
  Claim C1 at a failing input. Carol is not a participant of the group \<open>g1\<close>.
  Her \<^verbatim>\<open>message:send\<close> into \<open>g1\<close> passes every test of the listener, which
  never compares the sender with \<^verbatim>\<open>chat.participants\<close>: the message is stored
  and \<^verbatim>\<open>message:new\<close> goes to the sockets of Alice and Bob and to her own.
\<close>

theorem send_by_non_participant_is_broadcast:
  "map_option participants (map_get ''g1'' (chats demo_call)) = Some [''alice'', ''bob'']
   \<and> map_option sender
        (map_get ''m9'' (messages (fst (message_send ''carol'' ''sc'' (demo_payload ''g1'') ''m9'' 7 demo_call))))
       = Some ''carol''
   \<and> map fst (snd (message_send ''carol'' ''sc'' (demo_payload ''g1'') ''m9'' 7 demo_call))
       = [Socket ''sa'', Socket ''sb1'', Socket ''sb2'', Socket ''sc'']
   \<and> list_all (\<lambda>e. is_message_new (snd e))
        (snd (message_send ''carol'' ''sc'' (demo_payload ''g1'') ''m9'' 7 demo_call))"
  unfolding demo_call_value
  by (simp add: message_send_def message_send_try_def demo_payload_def demo_chats_def map_get_def
      Let_def populate_participants_def fanout_targets_def sessionsOf_def room_sids_def set_add_def
      hydrateMessageForClient_def sent_message_def truthy_def)

subsection \<open>How often a forwarded message arrives\<close>

text \<open>
  Claim C5 at a failing input. Alice forwards \<open>m1\<close> into \<open>g1\<close> from her socket
  \<open>sa\<close>. The listener emits \<^verbatim>\<open>message:new\<close> to \<open>sa\<close> and then to every
  socket of every participant, \<open>sa\<close> among them: the sender's socket receives
  the new message twice, each of Bob's sockets once.
\<close>

theorem forward_reaches_sender_twice:
  "length (filter is_message_new
     (received ''sa'' (snd (message_forward ''alice'' ''sa'' ''m1'' ''g1'' ''m9'' demo_call)))) = 2
   \<and> length (filter is_message_new
     (received ''sb1'' (snd (message_forward ''alice'' ''sa'' ''m1'' ''g1'' ''m9'' demo_call)))) = 1
   \<and> map fst (snd (message_forward ''alice'' ''sa'' ''m1'' ''g1'' ''m9'' demo_call))
       = [Socket ''sa'', Socket ''sa'', Socket ''sb1'', Socket ''sb2'']"
  unfolding demo_call_value
  by (simp add: message_forward_def message_forward_try_def demo_message_def demo_chats_def map_get_def
      Let_def set_has_def fanout_targets_def sessionsOf_def room_sids_def set_add_def
      hydrateMessageForClient_def received_def)

subsection \<open>Receipts that overlap\<close>

lemma rank_simps:
  "status_rank Sent = 0" "status_rank Delivered = 1" "status_rank Read = 2"
  by (simp_all add: status_rank_def)

text \<open>
  A receipt whose save follows its load with nothing in between, so that the copy
  is the stored document, never lowers the status: a delivery receipt leaves a
  read message read, and a read receipt makes it read.
\<close>

lemma receipt_in_turn:
  assumes "map_get mid (messages s) = Some m"
  shows "\<exists>m'. map_get mid (messages (fst (message_delivered_save u x mid (Some m) s))) = Some m'
              \<and> mstatus m' = (if mstatus m = Read then Read else Delivered)"
    and "\<exists>m'. map_get mid (messages (fst (message_read_save u x mid (Some m) s))) = Some m'
              \<and> mstatus m' = Read"
  using assms
  by (cases "mstatus m";
      auto simp: message_delivered_save_def message_read_save_def doc_save_def Let_def
        map_get_map_set)+

text \<open>
  Claim C3 at a failing input. Alice's message \<open>m2\<close> is stored with status sent.
  Bob's first socket sends \<^verbatim>\<open>message:read\<close> and his second socket sends
  \<^verbatim>\<open>message:delivered\<close>; both listeners load the message before either saves.
  The read receipt saves first and the message is read. The delivery receipt then
  tests its own copy, which still says sent, and saves delivered over read: the
  status goes from read back to delivered.
\<close>

theorem stale_delivered_overwrites_read:
  "map_option mstatus (map_get ''m2'' (messages demo_sent)) = Some Sent
   \<and> map_option mstatus (map_get ''m2'' (messages (fst (run demo_sent
        [MarkRead ''bob'' ''sb1'' ''m2'', MarkDelivered ''bob'' ''sb2'' ''m2'', Resume 0 7]))))
       = Some Read
   \<and> map_option mstatus (map_get ''m2'' (messages (fst (run demo_sent
        [MarkRead ''bob'' ''sb1'' ''m2'', MarkDelivered ''bob'' ''sb2'' ''m2'', Resume 0 7,
         Resume 0 8]))))
       = Some Delivered
   \<and> status_rank Delivered < status_rank Read"
  unfolding demo_sent_value
  by (simp add: Let_def message_read_load_def message_delivered_load_def message_read_save_def
      message_delivered_save_def doc_save_def next_version_def splice1_def map_get_def set_has_def
      rank_simps)

subsection \<open>Toggling a reaction twice\<close>

lemma findIndex_None: "(findIndex P xs = None) = (\<forall>x \<in> set xs. \<not> P x)"
  by (induction xs) auto

lemma findIndex_first:
  assumes "\<forall>x \<in> set xs. \<not> P x" and "P r"
  shows "findIndex P (xs @ r # ys) = Some (length xs)"
  using assms by (induction xs) auto

lemma splice1_at_length: "splice1 (length xs) (xs @ r # ys) = xs @ ys"
  by (simp add: splice1_def)

lemma toggle_absent:
  assumes "\<forall>r \<in> set rs. \<not> (by_user r = u \<and> emoji r = em)"
  shows "toggle_reaction u em t rs = Push_reactions \<lparr>emoji = em, by_user = u, at_time = t\<rparr>"
  using assms by (simp add: toggle_reaction_def findIndex_None [THEN iffD2])

lemma toggle_present:
  assumes "\<forall>q \<in> set xs. \<not> (by_user q = u \<and> emoji q = em)" and "by_user r = u \<and> emoji r = em"
  shows "toggle_reaction u em t (xs @ r # ys) = Set_reactions (xs @ ys)"
  using findIndex_first [of xs "\<lambda>r. by_user r = u \<and> emoji r = em" r ys] assms
  by (simp add: toggle_reaction_def splice1_at_length)

lemma react_save_in_turn:
  assumes "map_get mid (messages s) = Some m"
  shows "map_get mid (messages (fst (message_react_save u x mid em t (Some m) s)))
           = Some ((apply_change (toggle_reaction u em t (reactions m)) m)
                     \<lparr>m_version := Suc (m_version m)\<rparr>)"
  using assms
  by (cases "toggle_reaction u em t (reactions m)")
     (auto simp: message_react_save_def doc_save_def Let_def map_get_map_set next_version_def
        toggle_reaction_def split: option.splits)

text \<open>
  Two toggles of the same user and emoji that do not overlap, each loading what
  the store holds when it starts: when the message carried no such reaction, its
  reactions are afterwards what they were; when it carried exactly one, the others
  keep their order and the one is taken out and pushed again at the end.
\<close>

lemma react_twice_in_turn:
  assumes "map_get mid (messages s) = Some m"
    and "s1 = fst (message_react_save u x mid em t1 (map_get mid (messages s)) s)"
    and "s2 = fst (message_react_save u x mid em t2 (map_get mid (messages s1)) s1)"
  shows "(\<forall>r \<in> set (reactions m). \<not> (by_user r = u \<and> emoji r = em)) \<longrightarrow>
            map_option reactions (map_get mid (messages s2)) = Some (reactions m)"
    and "reactions m = xs @ r # ys \<and> by_user r = u \<and> emoji r = em
           \<and> (\<forall>q \<in> set xs. \<not> (by_user q = u \<and> emoji q = em))
           \<and> (\<forall>q \<in> set ys. \<not> (by_user q = u \<and> emoji q = em)) \<longrightarrow>
            map_option reactions (map_get mid (messages s2))
              = Some (xs @ ys @ [\<lparr>emoji = em, by_user = u, at_time = t2\<rparr>])"
proof -
  let ?c1 = "toggle_reaction u em t1 (reactions m)"
  let ?m1 = "(apply_change ?c1 m)\<lparr>m_version := Suc (m_version m)\<rparr>"
  have g1: "map_get mid (messages s1) = Some ?m1"
    unfolding assms(2) assms(1) by (rule react_save_in_turn [OF assms(1)])
  let ?c2 = "toggle_reaction u em t2 (reactions ?m1)"
  have g2: "map_get mid (messages s2) = Some ((apply_change ?c2 ?m1)\<lparr>m_version := Suc (m_version ?m1)\<rparr>)"
    unfolding assms(3) g1 by (rule react_save_in_turn [OF g1])
  show "(\<forall>r \<in> set (reactions m). \<not> (by_user r = u \<and> emoji r = em)) \<longrightarrow>
            map_option reactions (map_get mid (messages s2)) = Some (reactions m)"
  proof
    assume a: "\<forall>r \<in> set (reactions m). \<not> (by_user r = u \<and> emoji r = em)"
    have r1: "reactions ?m1 = reactions m @ \<lparr>emoji = em, by_user = u, at_time = t1\<rparr> # []"
      by (simp add: toggle_absent [OF a])
    have "?c2 = Set_reactions (reactions m @ [])"
      unfolding r1 by (rule toggle_present) (use a in simp_all)
    then show "map_option reactions (map_get mid (messages s2)) = Some (reactions m)"
      unfolding g2 by simp
  qed
  show "reactions m = xs @ r # ys \<and> by_user r = u \<and> emoji r = em
           \<and> (\<forall>q \<in> set xs. \<not> (by_user q = u \<and> emoji q = em))
           \<and> (\<forall>q \<in> set ys. \<not> (by_user q = u \<and> emoji q = em)) \<longrightarrow>
            map_option reactions (map_get mid (messages s2))
              = Some (xs @ ys @ [\<lparr>emoji = em, by_user = u, at_time = t2\<rparr>])"
  proof
    assume h: "reactions m = xs @ r # ys \<and> by_user r = u \<and> emoji r = em
           \<and> (\<forall>q \<in> set xs. \<not> (by_user q = u \<and> emoji q = em))
           \<and> (\<forall>q \<in> set ys. \<not> (by_user q = u \<and> emoji q = em))"
    then have "?c1 = Set_reactions (xs @ ys)"
      using toggle_present [of xs u em r t1 ys] by simp
    then have r1: "reactions ?m1 = xs @ ys" by simp
    have "\<forall>q \<in> set (xs @ ys). \<not> (by_user q = u \<and> emoji q = em)" using h by auto
    then have "?c2 = Push_reactions \<lparr>emoji = em, by_user = u, at_time = t2\<rparr>"
      unfolding r1 by (rule toggle_absent)
    then show "map_option reactions (map_get mid (messages s2))
              = Some (xs @ ys @ [\<lparr>emoji = em, by_user = u, at_time = t2\<rparr>])"
      unfolding g2 using r1 by simp
  qed
qed

text \<open>
  Claim C8 at a failing input. Alice has no \<open>smile\<close> reaction on \<open>m1\<close>. Her
  socket sends \<^verbatim>\<open>message:react\<close> with \<open>smile\<close> twice in succession, and both
  listeners load the message before either saves. Each finds no such reaction on
  its copy and pushes one, and each save appends its push to the stored array:
  \<open>m1\<close> ends up with two \<open>smile\<close> reactions of Alice where it had none.
\<close>

theorem overlapping_reacts_both_push:
  "map_option (\<lambda>d. map (\<lambda>r. (emoji r, by_user r)) (reactions d))
       (map_get ''m1'' (messages demo_call))
     = Some [(''+1'', ''alice''), (''heart'', ''bob'')]
   \<and> map_option (\<lambda>d. map (\<lambda>r. (emoji r, by_user r)) (reactions d))
       (map_get ''m1'' (messages (fst (run demo_call
          [React ''alice'' ''sa'' ''m1'' ''smile'', React ''alice'' ''sa'' ''m1'' ''smile'',
           Resume 0 7, Resume 0 8]))))
     = Some [(''+1'', ''alice''), (''heart'', ''bob''), (''smile'', ''alice''), (''smile'', ''alice'')]"
  unfolding demo_call_value
  by (simp add: Let_def message_react_load_def message_react_save_def doc_save_def next_version_def
      splice1_def map_get_def toggle_reaction_def demo_message_def)

subsection \<open>The tables stay well formed\<close>

lemma keys_map_set: "fst ` set (map_set k v m) = insert k (fst ` set m)"
  by (induction m) auto

lemma distinct_map_set: "distinct (map fst m) \<Longrightarrow> distinct (map fst (map_set k v m))"
  by (induction m) (auto simp: keys_map_set)

lemma set_map_set: "set (map_set k v m) \<subseteq> insert (k, v) (set m)"
  by (induction m) auto

lemma distinct_map_delete: "distinct (map fst m) \<Longrightarrow> distinct (map fst (map_delete k m))"
  by (simp add: map_delete_def distinct_map_filter)

lemma set_map_delete: "set (map_delete k m) \<subseteq> set m"
  by (auto simp: map_delete_def)

lemma map_delete_map_set: "map_delete k (map_set k v m) = map_delete k m"
  by (induction m) (auto simp: map_delete_def)

lemma map_get_in_set: "map_get k m = Some v \<Longrightarrow> (k, v) \<in> set m"
  by (simp add: map_get_def map_of_SomeD)

lemma map_get_unique:
  assumes "distinct (map fst m)" and "map_get k m = Some v" and "e \<in> set m" and "fst e = k"
  shows "snd e = v"
proof -
  from assms(3,4) have "(k, snd e) \<in> set m" by (metis prod.collapse)
  with assms(1) have "map_of m k = Some (snd e)" by simp
  with assms(2) show ?thesis by (simp add: map_get_def)
qed

lemma rooms_ok_sids: "rooms_ok rs \<Longrightarrow> distinct (room_sids rs r)"
  by (auto simp: rooms_ok_def room_sids_def list_all_iff dest!: map_get_in_set split: option.splits)

lemma rooms_ok_set:
  assumes "rooms_ok rs" and "distinct ss"
  shows "rooms_ok (map_set r ss rs)"
  using assms set_map_set [of r ss rs]
  by (auto simp: rooms_ok_def distinct_map_set list_all_iff)

lemma rooms_ok_join: "rooms_ok rs \<Longrightarrow> rooms_ok (socket_join x r rs)"
  unfolding socket_join_def
  by (rule rooms_ok_set) (simp_all add: rooms_ok_sids set_add_def)

lemma rooms_ok_delete: "rooms_ok rs \<Longrightarrow> rooms_ok (map_delete r rs)"
  using set_map_delete [of r rs]
  by (auto simp: rooms_ok_def distinct_map_delete list_all_iff)

lemma rooms_ok_leave:
  assumes "rooms_ok rs"
  shows "rooms_ok (socket_leave x r rs)"
proof (cases "map_get r rs")
  case None
  then show ?thesis using assms by (simp add: socket_leave_def)
next
  case (Some ss)
  with assms have "distinct ss" using rooms_ok_sids [OF assms, of r] by (simp add: room_sids_def)
  then have "distinct (set_delete x ss)" by (simp add: set_delete_def distinct_removeAll)
  then show ?thesis
    using Some assms by (simp add: socket_leave_def rooms_ok_set rooms_ok_delete)
qed

lemma rooms_ok_leave_all:
  assumes "rooms_ok rs"
  shows "rooms_ok (socket_leave_all x rs)"
proof -
  have "map fst (filter (\<lambda>e. snd e \<noteq> []) (map (\<lambda>e. (fst e, set_delete x (snd e))) rs))
          = map fst (filter (\<lambda>e. set_delete x (snd e) \<noteq> []) rs)"
    by (induction rs) auto
  moreover have "distinct (map fst (filter (\<lambda>e. set_delete x (snd e) \<noteq> []) rs))"
    using assms by (simp add: rooms_ok_def distinct_map_filter)
  ultimately show ?thesis
    using assms
    by (force simp: rooms_ok_def socket_leave_all_def list_all_iff set_delete_def distinct_removeAll)
qed

lemma calls_ok_set:
  assumes "calls_ok cs" and "set_has (host c) (members c)"
  shows "calls_ok (map_set k c cs)"
  using assms set_map_set [of k c cs]
  by (auto simp: calls_ok_def distinct_map_set list_all_iff)

lemma calls_ok_delete: "calls_ok cs \<Longrightarrow> calls_ok (map_delete k cs)"
  using set_map_delete [of k cs]
  by (auto simp: calls_ok_def distinct_map_delete list_all_iff)

lemma calls_ok_get: "calls_ok cs \<Longrightarrow> map_get k cs = Some c \<Longrightarrow> set_has (host c) (members c)"
  by (auto simp: calls_ok_def list_all_iff dest!: map_get_in_set)

lemma sweep_calls_keys:
  "map fst (fst (sweep_calls u rs cs))
     = map fst (filter (\<lambda>e. \<not> (set_has u (members (snd e))
                        \<and> (host (snd e) = u \<or> set_delete u (members (snd e)) = []))) cs)"
  unfolding sweep_calls_state by (simp add: comp_def)

lemma calls_ok_sweep:
  assumes "calls_ok cs"
  shows "calls_ok (fst (sweep_calls u rs cs))"
proof -
  have "distinct (map fst (fst (sweep_calls u rs cs)))"
    unfolding sweep_calls_keys using assms by (simp add: calls_ok_def distinct_map_filter)
  moreover have "list_all (\<lambda>e. set_has (host (snd e)) (members (snd e))) (fst (sweep_calls u rs cs))"
    unfolding sweep_calls_state using assms
    by (auto simp: calls_ok_def list_all_iff set_has_def set_delete_def)
  ultimately show ?thesis by (simp add: calls_ok_def)
qed

lemma tables_connection:
  "activeCalls (fst (on_connection u x now s)) = activeCalls s
   \<and> rooms (fst (on_connection u x now s)) = rooms s"
  by (simp add: on_connection_def Let_def)

lemma tables_message_send:
  "activeCalls (fst (message_send u x p n now s)) = activeCalls s
   \<and> rooms (fst (message_send u x p n now s)) = rooms s"
  by (simp add: message_send_def message_send_try_def Let_def split: option.splits sum.splits if_splits)

lemma tables_loads:
  "activeCalls (fst (message_delivered_load u x m s)) = activeCalls s
   \<and> rooms (fst (message_delivered_load u x m s)) = rooms s"
  "activeCalls (fst (message_read_load u x m s)) = activeCalls s
   \<and> rooms (fst (message_read_load u x m s)) = rooms s"
  "activeCalls (fst (message_react_load u x m e s)) = activeCalls s
   \<and> rooms (fst (message_react_load u x m e s)) = rooms s"
  by (simp_all add: message_delivered_load_def message_read_load_def message_react_load_def)

lemma tables_message_delivered:
  "activeCalls (fst (message_delivered_save u x m l s)) = activeCalls s
   \<and> rooms (fst (message_delivered_save u x m l s)) = rooms s"
  by (simp add: message_delivered_save_def Let_def split: option.splits sum.splits)

lemma tables_message_read:
  "activeCalls (fst (message_read_save u x m l s)) = activeCalls s
   \<and> rooms (fst (message_read_save u x m l s)) = rooms s"
  by (simp add: message_read_save_def Let_def split: option.splits sum.splits)

lemma tables_message_react:
  "activeCalls (fst (message_react_save u x m e now l s)) = activeCalls s
   \<and> rooms (fst (message_react_save u x m e now l s)) = rooms s"
  by (simp add: message_react_save_def Let_def split: option.splits sum.splits)

lemma tables_resume:
  "activeCalls (fst (resume p now s)) = activeCalls s \<and> rooms (fst (resume p now s)) = rooms s"
  by (cases p) (simp_all add: tables_message_delivered tables_message_read tables_message_react)

lemma tables_message_forward:
  "activeCalls (fst (message_forward u x m c n s)) = activeCalls s
   \<and> rooms (fst (message_forward u x m c n s)) = rooms s"
  by (simp add: message_forward_def message_forward_try_def Let_def split: option.splits sum.splits if_splits)

lemma tables_call_reject:
  "activeCalls (fst (call_reject u x c s)) = activeCalls s
   \<and> rooms (fst (call_reject u x c s)) = rooms s"
  by (simp add: call_reject_def split: option.splits)

lemma tables_call_signal:
  "activeCalls (fst (call_signal u x c t d s)) = activeCalls s
   \<and> rooms (fst (call_signal u x c t d s)) = rooms s"
  by (simp add: call_signal_def split: option.splits)

lemma ok_call_start:
  assumes "calls_ok (activeCalls s)" and "rooms_ok (rooms s)"
  shows "calls_ok (activeCalls (fst (call_start u x c k n now s)))
       \<and> rooms_ok (rooms (fst (call_start u x c k n now s)))"
  using assms
  by (auto simp: call_start_def call_start_try_def Let_def rooms_ok_join set_has_def
        intro!: calls_ok_set split: option.splits sum.splits if_splits)

lemma ok_call_accept:
  assumes "calls_ok (activeCalls s)" and "rooms_ok (rooms s)"
  shows "calls_ok (activeCalls (fst (call_accept u x c s)))
       \<and> rooms_ok (rooms (fst (call_accept u x c s)))"
proof (cases "map_get c (activeCalls s)")
  case None
  then show ?thesis using assms by (simp add: call_accept_def call_accept_try_def)
next
  case (Some cl)
  from calls_ok_get [OF assms(1) Some]
  have "set_has (host (cl\<lparr>members := set_add u (members cl)\<rparr>))
          (members (cl\<lparr>members := set_add u (members cl)\<rparr>))"
    by (simp add: set_has_def set_add_def)
  from calls_ok_set [OF assms(1) this] Some assms(2) show ?thesis
    by (simp add: call_accept_def call_accept_try_def Let_def rooms_ok_join)
qed

lemma ok_call_leave:
  assumes "calls_ok (activeCalls s)" and "rooms_ok (rooms s)"
  shows "calls_ok (activeCalls (fst (call_leave u x c s)))
       \<and> rooms_ok (rooms (fst (call_leave u x c s)))"
proof (cases "map_get c (activeCalls s)")
  case None
  then show ?thesis using assms by (simp add: call_leave_def)
next
  case (Some cl)
  let ?c' = "cl\<lparr>members := set_delete u (members cl)\<rparr>"
  have del: "calls_ok (map_delete c (map_set c ?c' (activeCalls s)))"
    using calls_ok_delete [OF assms(1)] by (simp add: map_delete_map_set)
  have keep: "calls_ok (map_set c ?c' (activeCalls s))" if "host cl \<noteq> u"
  proof -
    from calls_ok_get [OF assms(1) Some] that
    have "set_has (host ?c') (members ?c')" by (simp add: set_has_def set_delete_def)
    from calls_ok_set [OF assms(1) this] show ?thesis .
  qed
  from del keep Some assms(2) show ?thesis
    by (auto simp: call_leave_def Let_def rooms_ok_leave)
qed

lemma ok_call_end:
  assumes "calls_ok (activeCalls s)" and "rooms_ok (rooms s)"
  shows "calls_ok (activeCalls (fst (call_end u x c s)))
       \<and> rooms_ok (rooms (fst (call_end u x c s)))"
  using assms
  by (auto simp: call_end_def calls_ok_delete split: option.splits)

lemma ok_disconnect:
  assumes "calls_ok (activeCalls s)" and "rooms_ok (rooms s)"
  shows "calls_ok (activeCalls (fst (socket_disconnect u x now s)))
       \<and> rooms_ok (rooms (fst (socket_disconnect u x now s)))"
proof -
  have "rooms (fst (socket_disconnect u x now s)) = socket_leave_all x (rooms s)"
    by (simp add: socket_disconnect_def on_disconnect_def Let_def)
  then show ?thesis
    using assms by (simp add: disconnect_activeCalls calls_ok_sweep rooms_ok_leave_all)
qed

lemma ok_step:
  assumes "calls_ok (activeCalls s) \<and> rooms_ok (rooms s)"
  shows "calls_ok (activeCalls (fst (step s e))) \<and> rooms_ok (rooms (fst (step s e)))"
proof (cases e)
  case (Disconnect u x now)
  then show ?thesis using ok_disconnect assms by simp
next
  case (CallStart u x c k n now)
  then show ?thesis using ok_call_start assms by simp
next
  case (CallAccept u x c)
  then show ?thesis using ok_call_accept assms by simp
next
  case (CallLeave u x c)
  then show ?thesis using ok_call_leave assms by simp
next
  case (CallEnd u x c)
  then show ?thesis using ok_call_end assms by simp
qed (use assms in \<open>simp_all add: tables_connection tables_message_send tables_loads
      tables_resume tables_message_forward tables_call_reject
      tables_call_signal rooms_ok_join rooms_ok_leave\<close>)

lemma ok_run:
  assumes "calls_ok (activeCalls s) \<and> rooms_ok (rooms s)"
  shows "calls_ok (activeCalls (fst (run s es))) \<and> rooms_ok (rooms (fst (run s es)))"
  using assms
proof (induction es arbitrary: s)
  case Nil
  then show ?case by simp
next
  case (Cons e es)
  from Cons.IH [OF ok_step [OF Cons.prems]] show ?case by (simp add: Let_def)
qed

lemma ok_reachable:
  "calls_ok (activeCalls (fst (run (server_start cs us ms) es)))
   \<and> rooms_ok (rooms (fst (run (server_start cs us ms) es)))"
  by (rule ok_run) (simp add: server_start_def calls_ok_def rooms_ok_def)

subsection \<open>The host leaves a call\<close>

lemma ended_count_Nil: "ended_count cid y [] = 0"
  by (simp add: ended_count_def received_def)

lemma ended_count_append:
  "ended_count cid y (a @ b) = ended_count cid y a + ended_count cid y b"
  by (simp add: ended_count_def received_def)

lemma ended_count_presence:
  "ended_count cid y ((t, PresenceUpdate v b) # es) = ended_count cid y es"
  by (simp add: ended_count_def received_def)

lemma ended_count_left: "ended_count cid y (io_to_room rs r (CallLeft c v)) = 0"
  by (simp add: ended_count_def received_def io_to_room_def filter_map comp_def)

lemma ended_count_ended:
  "ended_count cid y (io_to_room rs r (CallEnded c why))
     = (if c = cid then count_list (room_sids rs r) y else 0)"
proof -
  have "ended_count cid y (map (\<lambda>x. (Socket x, CallEnded c why)) xs)
          = (if c = cid then count_list xs y else 0)" for xs
    by (induction xs) (auto simp: ended_count_def received_def)
  then show ?thesis by (simp add: io_to_room_def)
qed

lemma count_list_distinct: "distinct xs \<Longrightarrow> count_list xs y = (if y \<in> set xs then 1 else 0)"
  by (induction xs) auto

lemma count_list_set_delete: "y \<noteq> x \<Longrightarrow> count_list (set_delete x xs) y = count_list xs y"
  by (induction xs) (auto simp: set_delete_def)

lemma room_sids_socket_leave: "room_sids (socket_leave x r rs) r = set_delete x (room_sids rs r)"
  by (auto simp: socket_leave_def room_sids_def map_get_map_set map_get_map_delete set_delete_def
        split: option.splits)

lemma room_sids_socket_leave_all:
  assumes "distinct (map fst rs)"
  shows "room_sids (socket_leave_all x rs) r = set_delete x (room_sids rs r)"
  using assms
proof (induction rs)
  case Nil
  then show ?case by (simp add: socket_leave_all_def room_sids_def map_get_def set_delete_def)
next
  case (Cons e rs)
  have none: "map_of (filter (\<lambda>e. snd e \<noteq> []) (map (\<lambda>e. (fst e, set_delete x (snd e))) rs)) r = None"
    if "r \<notin> fst ` set rs"
    using that by (induction rs) auto
  show ?case
  proof (cases "fst e = r")
    case True
    with Cons.prems have "r \<notin> fst ` set rs" by auto
    from none [OF this] True show ?thesis
      by (cases e) (simp add: socket_leave_all_def room_sids_def map_get_def)
  next
    case False
    with Cons.IH Cons.prems show ?thesis
      by (cases e) (simp add: socket_leave_all_def room_sids_def map_get_def)
  qed
qed

lemma sweep_calls_other:
  assumes "cid \<notin> fst ` set cs"
  shows "ended_count cid y (snd (sweep_calls u rs cs)) = 0"
  using assms
  by (induction cs)
     (auto simp: Let_def ended_count_Nil ended_count_append ended_count_left ended_count_ended)

lemma sweep_calls_ended_count:
  assumes "distinct (map fst cs)" and "map_get cid cs = Some c"
    and "set_has u (members c)" and "host c = u"
  shows "ended_count cid y (snd (sweep_calls u rs cs)) = count_list (room_sids rs (CallRoom cid)) y"
  using assms
proof (induction cs)
  case Nil
  then show ?case by (simp add: map_get_def)
next
  case (Cons e cs)
  show ?case
  proof (cases "fst e = cid")
    case True
    with Cons.prems have "snd e = c" and "cid \<notin> fst ` set cs"
      by (auto simp: map_get_def)
    with True Cons.prems(3,4) sweep_calls_other [of cid cs y u rs] show ?thesis
      by (simp add: Let_def ended_count_append ended_count_left ended_count_ended)
  next
    case False
    with Cons.prems have "map_get cid cs = Some c" and "distinct (map fst cs)"
      by (auto simp: map_get_def)
    from Cons.IH [OF this(2) this(1) Cons.prems(3,4)] False show ?thesis
      by (simp add: Let_def ended_count_append ended_count_left ended_count_ended)
  qed
qed

lemma sweep_calls_removes:
  assumes "distinct (map fst cs)" and "map_get cid cs = Some c"
    and "set_has u (members c)" and "host c = u"
  shows "map_get cid (fst (sweep_calls u rs cs)) = None"
proof -
  have "cid \<notin> fst ` set (fst (sweep_calls u rs cs))"
  proof
    assume "cid \<in> fst ` set (fst (sweep_calls u rs cs))"
    then have "cid \<in> set (map fst (fst (sweep_calls u rs cs)))" by simp
    then obtain e where e: "e \<in> set cs" "fst e = cid"
      "\<not> (set_has u (members (snd e)) \<and> (host (snd e) = u \<or> set_delete u (members (snd e)) = []))"
      unfolding sweep_calls_keys by auto
    from map_get_unique [OF assms(1,2) e(1,2)] e(3) assms(3,4) show False by simp
  qed
  then show ?thesis by (simp add: map_get_def map_of_eq_None_iff)
qed

lemma host_leave:
  assumes "rooms_ok (rooms s)" and "map_get cid (activeCalls s) = Some c" and "host c = u"
  shows "map_get cid (activeCalls (fst (call_leave u x cid s))) = None"
    and "y \<in> set (room_sids (rooms s) (CallRoom cid)) \<Longrightarrow> y \<noteq> x
           \<Longrightarrow> ended_count cid y (snd (call_leave u x cid s)) = 1"
proof -
  show "map_get cid (activeCalls (fst (call_leave u x cid s))) = None"
    using assms(2,3) by (simp add: call_leave_def Let_def map_get_map_delete)
next
  assume y: "y \<in> set (room_sids (rooms s) (CallRoom cid))" "y \<noteq> x"
  have "ended_count cid y (snd (call_leave u x cid s))
          = count_list (room_sids (socket_leave x (CallRoom cid) (rooms s)) (CallRoom cid)) y"
    using assms(2,3)
    by (simp add: call_leave_def Let_def ended_count_append ended_count_left ended_count_ended)
  also have "\<dots> = count_list (room_sids (rooms s) (CallRoom cid)) y"
    using y(2) by (simp add: room_sids_socket_leave count_list_set_delete)
  also have "\<dots> = 1"
    using y(1) rooms_ok_sids [OF assms(1)] by (simp add: count_list_distinct)
  finally show "ended_count cid y (snd (call_leave u x cid s)) = 1" .
qed

lemma host_disconnect:
  assumes "rooms_ok (rooms s)" and "calls_ok (activeCalls s)"
    and "map_get cid (activeCalls s) = Some c" and "host c = u"
  shows "map_get cid (activeCalls (fst (socket_disconnect u x now s))) = None"
    and "y \<in> set (room_sids (rooms s) (CallRoom cid)) \<Longrightarrow> y \<noteq> x
           \<Longrightarrow> ended_count cid y (snd (socket_disconnect u x now s)) = 1"
proof -
  have d: "distinct (map fst (activeCalls s))" using assms(2) by (simp add: calls_ok_def)
  have m: "set_has u (members c)" using calls_ok_get [OF assms(2,3)] assms(4) by simp
  show "map_get cid (activeCalls (fst (socket_disconnect u x now s))) = None"
    unfolding disconnect_activeCalls by (rule sweep_calls_removes [OF d assms(3) m assms(4)])
next
  assume y: "y \<in> set (room_sids (rooms s) (CallRoom cid))" "y \<noteq> x"
  have d: "distinct (map fst (activeCalls s))" using assms(2) by (simp add: calls_ok_def)
  have m: "set_has u (members c)" using calls_ok_get [OF assms(2,3)] assms(4) by simp
  have dr: "distinct (map fst (rooms s))" using assms(1) by (simp add: rooms_ok_def)
  have "ended_count cid y (snd (socket_disconnect u x now s))
          = count_list (room_sids (socket_leave_all x (rooms s)) (CallRoom cid)) y"
    unfolding disconnect_emits
    by (simp add: ended_count_presence sweep_calls_ended_count [OF d assms(3) m assms(4)])
  also have "\<dots> = count_list (room_sids (rooms s) (CallRoom cid)) y"
    using y(2) by (simp add: room_sids_socket_leave_all [OF dr] count_list_set_delete)
  also have "\<dots> = 1"
    using y(1) rooms_ok_sids [OF assms(1)] by (simp add: count_list_distinct)
  finally show "ended_count cid y (snd (socket_disconnect u x now s)) = 1" .
qed

text \<open>
  Claim C4, as stated, fails. Bob has accepted \<open>call1\<close> on both of his sockets,
  so the set of members holds him once and the room of the call holds both
  sockets. The host, Alice, leaves: \<^verbatim>\<open>call:ended\<close> goes to the room, and Bob,
  one remaining member, receives it twice.
\<close>

theorem host_leave_reaches_member_twice:
  "map_option members (map_get ''call1'' (activeCalls demo_call2)) = Some [''alice'', ''bob'']
   \<and> map_option host (map_get ''call1'' (activeCalls demo_call2)) = Some ''alice''
   \<and> length (filter (is_call_ended ''call1'')
        (user_received demo_call2 ''bob'' (snd (call_leave ''alice'' ''sa'' ''call1'' demo_call2)))) = 2"
  unfolding demo_call2_def demo_call_value
  by (simp add: call_accept_def call_accept_try_def call_leave_def Let_def map_get_def
      socket_join_def socket_leave_def room_sids_def set_add_def set_delete_def io_to_room_def
      user_received_def sessionsOf_def received_def map_delete_def)

text \<open>
  Claim C4, amended. In every state the server reaches from its start: when the
  host of a call that is in the table leaves through \<^verbatim>\<open>call:leave\<close>, or a socket
  of the host closes, every socket in the room of the call other than the one
  that leaves or closes (these are the sockets through which the users joined)
  receives exactly one \<^verbatim>\<open>call:ended\<close> for this call, the call is no longer in the
  table, and accept, leave, end and signal with its id then change nothing.
\<close>

theorem host_exit_ends_call:
  assumes "s = fst (run (server_start cs us ms) evs)"
    and "map_get callId (activeCalls s) = Some c" and "host c = u"
  shows "(\<forall>s'. s' = fst (call_leave u x callId s) \<or> s' = fst (socket_disconnect u x now s) \<longrightarrow>
            map_get callId (activeCalls s') = None
            \<and> call_accept v z callId s' = (s', [(Socket z, CallError ''Call not found'')])
            \<and> call_leave v z callId s' = (s', [])
            \<and> call_end v z callId s' = (s', [])
            \<and> call_signal v z callId t d s' = (s', []))
       \<and> (\<forall>y \<in> set (room_sids (rooms s) (CallRoom callId)). y \<noteq> x \<longrightarrow>
            ended_count callId y (snd (call_leave u x callId s)) = 1
            \<and> ended_count callId y (snd (socket_disconnect u x now s)) = 1)"
proof -
  from ok_reachable [of cs us ms evs] assms(1)
  have ok: "calls_ok (activeCalls s)" "rooms_ok (rooms s)" by simp_all
  note l = host_leave [OF ok(2) assms(2,3)]
  note dc = host_disconnect [OF ok(2) ok(1) assms(2,3)]
  have after: "map_get callId (activeCalls s') = None
            \<and> call_accept v z callId s' = (s', [(Socket z, CallError ''Call not found'')])
            \<and> call_leave v z callId s' = (s', [])
            \<and> call_end v z callId s' = (s', [])
            \<and> call_signal v z callId t d s' = (s', [])"
    if "s' = fst (call_leave u x callId s) \<or> s' = fst (socket_disconnect u x now s)" for s'
  proof -
    from that have n: "map_get callId (activeCalls s') = None"
    proof
      assume "s' = fst (call_leave u x callId s)"
      then show ?thesis using l(1) by simp
    next
      assume "s' = fst (socket_disconnect u x now s)"
      then show ?thesis using dc(1) by simp
    qed
    from n call_ops_unknown [OF n] show ?thesis by simp
  qed
  have A: "\<forall>s'. s' = fst (call_leave u x callId s) \<or> s' = fst (socket_disconnect u x now s) \<longrightarrow>
            map_get callId (activeCalls s') = None
            \<and> call_accept v z callId s' = (s', [(Socket z, CallError ''Call not found'')])
            \<and> call_leave v z callId s' = (s', [])
            \<and> call_end v z callId s' = (s', [])
            \<and> call_signal v z callId t d s' = (s', [])"
    by (intro allI impI) (rule after)
  have B: "\<forall>y \<in> set (room_sids (rooms s) (CallRoom callId)). y \<noteq> x \<longrightarrow>
            ended_count callId y (snd (call_leave u x callId s)) = 1
            \<and> ended_count callId y (snd (socket_disconnect u x now s)) = 1"
    using l(2) dc(2) by simp
  from A B show ?thesis by (rule conjI)
qed

text \<open>
  Alice, the host of \<open>call1\<close>, leaves, or her socket closes: each of Bob's two
  sockets in the room receives one \<^verbatim>\<open>call:ended\<close> and the call is gone.
\<close>

theorem host_exit_ends_call_witness:
  "map_get ''call1'' (activeCalls (fst (call_leave ''alice'' ''sa'' ''call1'' demo_call2))) = None
   \<and> map_get ''call1'' (activeCalls (fst (socket_disconnect ''alice'' ''sa'' 9 demo_call2))) = None
   \<and> ended_count ''call1'' ''sb1'' (snd (call_leave ''alice'' ''sa'' ''call1'' demo_call2)) = 1
   \<and> ended_count ''call1'' ''sb2'' (snd (socket_disconnect ''alice'' ''sa'' 9 demo_call2)) = 1"
proof -
  let ?evs = "[Connect ''alice'' ''sa'' 1, Connect ''bob'' ''sb1'' 2, Connect ''bob'' ''sb2'' 3,
      Connect ''carol'' ''sc'' 4, CallStart ''alice'' ''sa'' ''g1'' None ''call1'' 5,
      CallAccept ''bob'' ''sb1'' ''call1'', CallAccept ''bob'' ''sb2'' ''call1'']"
  let ?c = "\<lparr>c_id = ''call1'', c_chatId = ''g1'', kind = ''audio'', host = ''alice'',
             members = [''alice'', ''bob''], createdAt = 5\<rparr>"
  have r: "demo_call2 = fst (run (server_start demo_chats demo_users [(''m1'', demo_message)]) ?evs)"
    by (simp add: demo_call2_def demo_call_def demo_start_def Let_def)
  have v: "activeCalls demo_call2 = [(''call1'', ?c)]
           \<and> rooms demo_call2 = [(CallRoom ''call1'', [''sa'', ''sb1'', ''sb2''])]"
    unfolding demo_call2_def demo_call_value
    by (simp add: call_accept_def call_accept_try_def Let_def map_get_def socket_join_def
        room_sids_def set_add_def)
  have g: "map_get ''call1'' (activeCalls demo_call2) = Some ?c"
    using v by (simp add: map_get_def)
  have h: "host ?c = ''alice''" by simp
  have rs: "room_sids (rooms demo_call2) (CallRoom ''call1'') = [''sa'', ''sb1'', ''sb2'']"
    using v by (simp add: room_sids_def map_get_def)
  from host_exit_ends_call [OF r g h, of "''sa''" 9] rs show ?thesis
    by simp
qed

end
